theory Spec2Isabelle
  imports Complex_Main "HOL-Library.AList" "HOL-Library.Char_ord" "HOL-Library.List_Lexorder"
    "HOL-Library.Product_Lexorder"
begin

section \<open>Errors\<close>

text \<open>
  The source raises plain \<open>Exception\<close> objects and lets the exceptions of the
  libraries it calls escape. Each constructor names one of those raises:
  \<^item> \<open>DuplicateNodeError\<close>: the raise of \<open>Topology.__addNode\<close>;
  \<^item> \<open>UnknownNodeError\<close>: the raise of \<open>Topology.addLink\<close> for a missing endpoint, and
    the \<open>KeyError\<close> of \<open>getNode\<close>;
  \<^item> \<open>NotFoundError\<close>: the \<open>KeyError\<close> of \<open>Node.getInterface\<close>;
  \<^item> \<open>AddressSpaceExhaustedError\<close>: the \<open>StopIteration\<close> that \<open>next(ipgenerator)\<close>
    raises in \<open>assignIPAddresses\<close>;
  \<^item> \<open>NodeNameCollisionError\<close>: the error of the graph library's \<open>union\<close> on graphs that
    share a node;
  \<^item> \<open>MalformedTopologyError\<close>: the raise of \<open>Topology.unserialize\<close>;
  \<^item> \<open>KeyError\<close>, \<open>IndexError\<close>, \<open>TypeError\<close>, \<open>NameError\<close>, \<open>ValueError\<close>: the
    Python exceptions of a dictionary lookup, a list index, a value of the wrong type,
    \<open>eval\<close> of an unknown name and \<open>ipaddress.IPv4Network\<close>.
\<close>

datatype error =
    DuplicateNodeError
  | UnknownNodeError
  | NotFoundError
  | AddressSpaceExhaustedError
  | NodeNameCollisionError
  | MalformedTopologyError
  | KeyError
  | IndexError
  | TypeError
  | NameError
  | ValueError

section \<open>Strings\<close>

subsection \<open>Decimal and hexadecimal formatting\<close>

definition digit_chars :: string where
  "digit_chars = ''0123456789''"

text \<open>\<open>str(n)\<close> for a non-negative integer.\<close>

fun str_nat :: "nat \<Rightarrow> string" where
  "str_nat n =
     (if n < 10 then [digit_chars ! n]
      else str_nat (n div 10) @ [digit_chars ! (n mod 10)])"

declare str_nat.simps [simp del]

definition hex_chars :: string where
  "hex_chars = ''0123456789abcdef''"

fun hex_nat :: "nat \<Rightarrow> string" where
  "hex_nat n =
     (if n < 16 then [hex_chars ! n]
      else hex_nat (n div 16) @ [hex_chars ! (n mod 16)])"

declare hex_nat.simps [simp del]

text \<open>\<open>'{:012x}'.format(n)\<close>: lower-case hexadecimal, padded with zeros on the left to
  a width of at least 12.\<close>

definition format_012x :: "nat \<Rightarrow> string" where
  "format_012x n = replicate (12 - length (hex_nat n)) (CHR ''0'') @ hex_nat n"

text \<open>\<open>[macstr[j:(j+2)] for j in range(0, len(macstr), 2)]\<close>\<close>

fun byte_groups :: "string \<Rightarrow> string list" where
  "byte_groups [] = []"
| "byte_groups [c] = [[c]]"
| "byte_groups (c # d # cs) = [c, d] # byte_groups cs"

text \<open>\<open>sep.join(xs)\<close>\<close>

fun join :: "string \<Rightarrow> string list \<Rightarrow> string" where
  "join sep [] = []"
| "join sep [x] = x"
| "join sep (x # y # ys) = x @ sep @ join sep (y # ys)"

text \<open>The MAC address text that \<open>addLink\<close> derives from its counter (lines 278 and 280).\<close>

definition macaddr :: "nat \<Rightarrow> string" where
  "macaddr n = join '':'' (byte_groups (format_012x n))"

subsection \<open>Splitting\<close>

text \<open>The characters that \<open>str.split()\<close> treats as white space, among the first 128.\<close>

definition is_space :: "char \<Rightarrow> bool" where
  "is_space c \<longleftrightarrow> c \<in> set [CHR '' '', CHR 0x09, CHR 0x0A, CHR 0x0B, CHR 0x0C, CHR 0x0D,
     CHR 0x1C, CHR 0x1D, CHR 0x1E, CHR 0x1F]"

text \<open>\<open>s.split()\<close>: the maximal runs of characters that are not white space.\<close>

fun split_ws_aux :: "string \<Rightarrow> string \<Rightarrow> string list" where
  "split_ws_aux cur [] = (if cur = [] then [] else [cur])"
| "split_ws_aux cur (c # cs) =
     (if is_space c then (if cur = [] then split_ws_aux [] cs else cur # split_ws_aux [] cs)
      else split_ws_aux (cur @ [c]) cs)"

definition split_ws :: "string \<Rightarrow> string list" where
  "split_ws s = split_ws_aux [] s"

text \<open>\<open>s.split(sep)\<close> for a separator of one character: never empty.\<close>

fun split_on_aux :: "char \<Rightarrow> string \<Rightarrow> string \<Rightarrow> string list" where
  "split_on_aux sep cur [] = [cur]"
| "split_on_aux sep cur (c # cs) =
     (if c = sep then cur # split_on_aux sep [] cs else split_on_aux sep (cur @ [c]) cs)"

definition split_on :: "char \<Rightarrow> string \<Rightarrow> string list" where
  "split_on sep s = split_on_aux sep [] s"

text \<open>\<open>xs[i]\<close> for a non-negative index: \<open>IndexError\<close> out of range.\<close>

definition item :: "'a list \<Rightarrow> nat \<Rightarrow> error + 'a" where
  "item xs i = (if i < length xs then Inr (xs ! i) else Inl IndexError)"

section \<open>Interfaces\<close>

text \<open>
  The values an interface holds for its IP address and netmask: text (the default
  strings, and \<open>IPAddr(value)\<close> for a string \<open>value\<close>, kept as its text), or an
  \<open>ipaddress.IPv4Address\<close> as \<open>assignIPAddresses\<close> stores it. \<open>EthAddr\<close> and \<open>IPAddr\<close>
  come from \<open>switchyard.lib.address\<close>; they are taken as wrappers of the canonical text.
\<close>

datatype ipval = Text string | IPv4Address nat

text \<open>\<open>str(v)\<close>: dotted quad for an \<open>IPv4Address\<close>.\<close>

fun str_ip :: "ipval \<Rightarrow> string" where
  "str_ip (Text s) = s"
| "str_ip (IPv4Address n) =
     join ''.'' [str_nat (n div 16777216 mod 256), str_nat (n div 65536 mod 256),
       str_nat (n div 256 mod 256), str_nat (n mod 256)]"

record interface =
  intf_name :: string
  ethaddr :: string
  ipaddr :: ipval
  netmask :: ipval

text \<open>The three property setters (lines 36 to 75): \<open>None\<close> gives the default.\<close>

definition set_ethaddr :: "string option \<Rightarrow> interface \<Rightarrow> interface" where
  "set_ethaddr v i =
     (case v of Some s \<Rightarrow> i\<lparr>ethaddr := s\<rparr> | None \<Rightarrow> i\<lparr>ethaddr := ''00:00:00:00:00:00''\<rparr>)"

definition set_ipaddr :: "ipval option \<Rightarrow> interface \<Rightarrow> interface" where
  "set_ipaddr v i =
     (case v of Some a \<Rightarrow> i\<lparr>ipaddr := a\<rparr> | None \<Rightarrow> i\<lparr>ipaddr := Text ''0.0.0.0''\<rparr>)"

definition set_netmask :: "ipval option \<Rightarrow> interface \<Rightarrow> interface" where
  "set_netmask v i =
     (case v of Some a \<Rightarrow> i\<lparr>netmask := a\<rparr> | None \<Rightarrow> i\<lparr>netmask := Text ''255.255.255.255''\<rparr>)"

text \<open>\<open>Interface.__init__\<close>\<close>

definition Interface :: "string \<Rightarrow> string option \<Rightarrow> ipval option \<Rightarrow> ipval option \<Rightarrow> interface" where
  "Interface nm eth ip nmask =
     set_netmask nmask (set_ipaddr ip (set_ethaddr eth
       \<lparr>intf_name = nm, ethaddr = [], ipaddr = Text [], netmask = Text []\<rparr>))"

text \<open>\<open>Interface.__str__\<close>\<close>

definition Interface_str :: "interface \<Rightarrow> string" where
  "Interface_str i =
     (let s = intf_name i @ '' mac:'' @ ethaddr i
      in if str_ip (ipaddr i) \<noteq> ''0.0.0.0''
         then s @ '' ip:'' @ str_ip (ipaddr i) @ ''/'' @ str_ip (netmask i)
         else s)"

section \<open>Nodes\<close>

datatype nodeclass = Host | Switch | Router

text \<open>\<open>cls.__name__\<close>\<close>

fun class_name :: "nodeclass \<Rightarrow> string" where
  "class_name Host = ''Host''"
| "class_name Switch = ''Switch''"
| "class_name Router = ''Router''"

record node =
  cls :: nodeclass
  ifnum :: nat
  interfaces :: "(string \<times> interface) list"

text \<open>What \<open>Node.asDict\<close> returns, and what the JSON text carries for a node object.\<close>

record jnodeobj =
  nodetype :: string
  jinterfaces :: "(string \<times> string) list"

text \<open>The values of the keyword arguments that reach \<open>Node.__init__\<close>.\<close>

datatype kwarg = KStr string | KIfs "(string \<times> string) list" | KObj jnodeobj

text \<open>The body of the loop of \<open>Node.__init__\<close> (lines 90 to 95) for one entry.\<close>

definition parse_interface :: "string \<Rightarrow> string \<Rightarrow> error + interface" where
  "parse_interface ifname ifstr =
     (let ifcomponents = split_ws ifstr in
      case item ifcomponents 1 of Inl e \<Rightarrow> Inl e
      | Inr c1 \<Rightarrow>
          let mac = drop 4 c1 in
          if length ifcomponents > 2 then
            (case item (split_on (CHR '':'') (ifcomponents ! 2)) 1 of Inl e \<Rightarrow> Inl e
             | Inr p \<Rightarrow>
                 let ipmask = split_on (CHR ''/'') p in
                 (case item ipmask 0 of Inl e \<Rightarrow> Inl e
                  | Inr ip \<Rightarrow>
                      (case item ipmask 1 of Inl e \<Rightarrow> Inl e
                       | Inr nmask \<Rightarrow>
                           Inr (Interface ifname (Some mac) (Some (Text ip)) (Some (Text nmask))))))
          else Inr (Interface ifname (Some mac) None None))"

fun parse_interfaces ::
  "(string \<times> string) list \<Rightarrow> (string \<times> interface) list \<Rightarrow> error + (string \<times> interface) list" where
  "parse_interfaces [] acc = Inr acc"
| "parse_interfaces ((ifname, ifstr) # rest) acc =
     (case parse_interface ifname ifstr of Inl e \<Rightarrow> Inl e
      | Inr i \<Rightarrow> parse_interfaces rest (AList.update ifname i acc))"

text \<open>\<open>Node.__init__\<close> for the class \<open>c\<close>: \<open>ifnum\<close> is 0 whatever the keyword
  arguments are.\<close>

definition Node_init :: "nodeclass \<Rightarrow> (string \<times> kwarg) list \<Rightarrow> error + node" where
  "Node_init c kwargs =
     (case map_of kwargs ''interfaces'' of
        None \<Rightarrow> Inr \<lparr>cls = c, ifnum = 0, interfaces = []\<rparr>
      | Some (KIfs ifs) \<Rightarrow>
          (case parse_interfaces ifs [] of Inl e \<Rightarrow> Inl e
           | Inr m \<Rightarrow> Inr \<lparr>cls = c, ifnum = 0, interfaces = m\<rparr>)
      | Some _ \<Rightarrow> Inl TypeError)"

text \<open>\<open>Node.getInterface\<close>\<close>

definition getInterface :: "node \<Rightarrow> string \<Rightarrow> error + interface" where
  "getInterface n devname =
     (case map_of (interfaces n) devname of None \<Rightarrow> Inl NotFoundError | Some i \<Rightarrow> Inr i)"

text \<open>\<open>Node.addInterface\<close>: the name it returns and the node afterwards.\<close>

definition addInterface ::
  "node \<Rightarrow> string option \<Rightarrow> ipval option \<Rightarrow> ipval option \<Rightarrow> string \<times> node" where
  "addInterface n eth ip nmask =
     (let ifname = ''eth'' @ str_nat (ifnum n);
          n1 = n\<lparr>ifnum := ifnum n + 1\<rparr>;
          intf = Interface ifname eth ip nmask
      in (ifname, n1\<lparr>interfaces := AList.update ifname intf (interfaces n1)\<rparr>))"

text \<open>\<open>Node.asDict\<close>\<close>

definition asDict :: "node \<Rightarrow> jnodeobj" where
  "asDict n =
     \<lparr>nodetype = class_name (cls n),
      jinterfaces = map (\<lambda>(ifname, ifobj). (ifname, Interface_str ifobj)) (interfaces n)\<rparr>"

section \<open>The graph library\<close>

text \<open>
  \<open>Topology\<close> keeps its nodes and links in a graph object of the \<open>networkx\<close> library
  (\<open>nx.Graph\<close>: undirected, at most one edge between two nodes). The library is not part
  of the repository; the operations the source calls are modelled here from the
  library's documented behaviour. A graph is its name (the graph attribute \<open>name\<close>), its
  nodes in insertion order with their attribute dictionaries, and its edges in insertion
  order, each with its attribute dictionary. An edge is stored once, under the pair of
  endpoints it was created with, and is found under either orientation.

  The attribute dictionary of a node has the three keys \<open>label\<close>, \<open>nodeobj\<close> and \<open>type\<close>
  that \<open>__addNode\<close> writes. The attribute dictionary of an edge is an association list:
  \<open>addLink\<close> uses node names as keys beside \<open>label\<close>, \<open>capacity\<close> and \<open>delay\<close>.
\<close>

datatype attr = AStr string | AInt int | AFloat rat

type_synonym edict = "(string \<times> attr) list"

record 'o nodeattrs =
  label :: string
  nodeobj :: 'o
  ntype :: string

record 'o graph =
  gname :: string
  gnodes :: "(string \<times> 'o nodeattrs) list"
  gedges :: "((string \<times> string) \<times> edict) list"

text \<open>\<open>nx.Graph(name=name)\<close>\<close>

definition Graph :: "string \<Rightarrow> 'o graph" where
  "Graph nm = \<lparr>gname = nm, gnodes = [], gedges = []\<rparr>"

text \<open>\<open>G.nodes()\<close>, and \<open>n in G\<close> or \<open>G.has_node(n)\<close>\<close>

definition graph_nodes :: "'o graph \<Rightarrow> string list" where
  "graph_nodes g = map fst (gnodes g)"

definition has_node :: "'o graph \<Rightarrow> string \<Rightarrow> bool" where
  "has_node g n \<longleftrightarrow> n \<in> set (graph_nodes g)"

text \<open>\<open>G.add_node(n)\<close> followed by the three assignments of \<open>__addNode\<close> to \<open>G.node[n]\<close>,
  for a name that is not a node yet.\<close>

definition add_node :: "'o graph \<Rightarrow> string \<Rightarrow> 'o nodeattrs \<Rightarrow> 'o graph" where
  "add_node g n a = g\<lparr>gnodes := gnodes g @ [(n, a)]\<rparr>"

text \<open>\<open>G.node[n]\<close>\<close>

definition graph_node :: "'o graph \<Rightarrow> string \<Rightarrow> error + 'o nodeattrs" where
  "graph_node g n = (case map_of (gnodes g) n of None \<Rightarrow> Inl UnknownNodeError | Some a \<Rightarrow> Inr a)"

text \<open>A change of the object stored under \<open>G.node[n]['nodeobj']\<close>.\<close>

definition map_nodeobj :: "'o graph \<Rightarrow> string \<Rightarrow> ('o \<Rightarrow> 'o) \<Rightarrow> 'o graph" where
  "map_nodeobj g n f =
     g\<lparr>gnodes := map (\<lambda>(k, a). if k = n then (k, a\<lparr>nodeobj := f (nodeobj a)\<rparr>) else (k, a)) (gnodes g)\<rparr>"

definition same_edge :: "string \<Rightarrow> string \<Rightarrow> string \<times> string \<Rightarrow> bool" where
  "same_edge u v k \<longleftrightarrow> k = (u, v) \<or> k = (v, u)"

definition find_edge :: "'o graph \<Rightarrow> string \<Rightarrow> string \<Rightarrow> ((string \<times> string) \<times> edict) option" where
  "find_edge g u v = find (\<lambda>(k, d). same_edge u v k) (gedges g)"

definition has_edge :: "'o graph \<Rightarrow> string \<Rightarrow> string \<Rightarrow> bool" where
  "has_edge g u v \<longleftrightarrow> find_edge g u v \<noteq> None"

text \<open>\<open>G[u][v]\<close>: the attribute dictionary of the edge, \<open>KeyError\<close> without one.\<close>

definition graph_edge :: "'o graph \<Rightarrow> string \<Rightarrow> string \<Rightarrow> error + edict" where
  "graph_edge g u v = (case find_edge g u v of None \<Rightarrow> Inl KeyError | Some (k, d) \<Rightarrow> Inr d)"

text \<open>\<open>G.add_edge(u, v)\<close> between two nodes of the graph: an edge that exists keeps its
  attributes. (On a name that is not a node the library would create the node; \<open>addLink\<close>
  has checked both names before.)\<close>

definition add_edge :: "'o graph \<Rightarrow> string \<Rightarrow> string \<Rightarrow> 'o graph" where
  "add_edge g u v = (if has_edge g u v then g else g\<lparr>gedges := gedges g @ [((u, v), [])]\<rparr>)"

text \<open>\<open>G[u][v][key] = val\<close>\<close>

definition set_edge_attr :: "'o graph \<Rightarrow> string \<Rightarrow> string \<Rightarrow> string \<Rightarrow> attr \<Rightarrow> 'o graph" where
  "set_edge_attr g u v key val =
     g\<lparr>gedges := map (\<lambda>(k, d). if same_edge u v k then (k, AList.update key val d) else (k, d))
        (gedges g)\<rparr>"

text \<open>\<open>G.edges(data=False)\<close>\<close>

definition graph_edges :: "'o graph \<Rightarrow> (string \<times> string) list" where
  "graph_edges g = map fst (gedges g)"

section \<open>Topologies\<close>

text \<open>
  \<open>unhumanize_capacity\<close>, \<open>unhumanize_delay\<close>, \<open>humanize_capacity\<close> and \<open>humanize_delay\<close>
  come from \<open>switchyard.lib.topo.util\<close>, which is not among the sources: \<open>addLink\<close> takes
  them as a parameter.
\<close>

record util =
  unhumanize_capacity :: "string \<Rightarrow> int"
  unhumanize_delay :: "string \<Rightarrow> rat"
  humanize_capacity :: "int \<Rightarrow> string"
  humanize_delay :: "rat \<Rightarrow> string"

record topology =
  nxgraph :: "node graph"
  hnum :: nat
  snum :: nat
  rnum :: nat
  auto_macs :: bool
  topo_ifnum :: nat

text \<open>\<open>Topology.__init__\<close>: a graph object is false when it has no node, and is then
  replaced by a new graph with the given name.\<close>

definition Topology :: "string \<Rightarrow> node graph option \<Rightarrow> bool \<Rightarrow> topology" where
  "Topology nm g am =
     \<lparr>nxgraph = (case g of Some G \<Rightarrow> if gnodes G \<noteq> [] then G else Graph nm | None \<Rightarrow> Graph nm),
      hnum = 0, snum = 0, rnum = 0, auto_macs = am, topo_ifnum = 1\<rparr>"

text \<open>The properties \<open>name\<close>, \<open>nodes\<close>, \<open>links\<close>, \<open>hosts\<close>, \<open>switches\<close>, \<open>routers\<close>.\<close>

definition topo_name :: "topology \<Rightarrow> string" where
  "topo_name t = gname (nxgraph t)"

definition getnodes :: "topology \<Rightarrow> string option \<Rightarrow> string list" where
  "getnodes t typefilter =
     (case typefilter of
        Some ty \<Rightarrow> (if ty \<noteq> [] then map fst (filter (\<lambda>(n, ndict). ntype ndict = ty) (gnodes (nxgraph t)))
                    else graph_nodes (nxgraph t))
      | None \<Rightarrow> graph_nodes (nxgraph t))"

definition nodes :: "topology \<Rightarrow> string list" where
  "nodes t = getnodes t None"

definition hosts :: "topology \<Rightarrow> string list" where
  "hosts t = getnodes t (Some ''Host'')"


definition routers :: "topology \<Rightarrow> string list" where
  "routers t = getnodes t (Some ''Router'')"

definition links :: "topology \<Rightarrow> (string \<times> string) list" where
  "links t = graph_edges (nxgraph t)"

text \<open>\<open>Topology.__addNode\<close>: the outcome and the topology afterwards.\<close>

definition addNode :: "topology \<Rightarrow> string \<Rightarrow> nodeclass \<Rightarrow> (error + unit) \<times> topology" where
  "addNode t nm c =
     (if nm \<in> set (nodes t) then (Inl DuplicateNodeError, t)
      else (case Node_init c [] of
              Inl e \<Rightarrow> (Inl e, t)
            | Inr obj \<Rightarrow>
                (Inr (), t\<lparr>nxgraph := add_node (nxgraph t) nm
                   \<lparr>label = nm, nodeobj = obj, ntype = class_name c\<rparr>\<rparr>)))"

text \<open>\<open>getNode\<close>, \<open>getEdge\<close>, \<open>getLink\<close>\<close>

definition getNode :: "topology \<Rightarrow> string \<Rightarrow> error + node nodeattrs" where
  "getNode t nm = graph_node (nxgraph t) nm"

definition getEdge :: "topology \<Rightarrow> string \<Rightarrow> string \<Rightarrow> error + edict" where
  "getEdge t node1 node2 = graph_edge (nxgraph t) node1 node2"

definition getLink :: "topology \<Rightarrow> string \<Rightarrow> string \<Rightarrow> error + edict" where
  "getLink t node1 node2 = getEdge t node1 node2"

subsection \<open>Automatic node names\<close>

text \<open>Reading a decimal numeral back: \<open>str\<close> is injective on the naturals, which is what
  makes the naming loops of \<open>addHost\<close>, \<open>addSwitch\<close> and \<open>addRouter\<close> end.\<close>

definition digit_val :: "char \<Rightarrow> nat" where
  "digit_val c = length (takeWhile (\<lambda>d. d \<noteq> c) digit_chars)"

definition dec_val :: "string \<Rightarrow> nat" where
  "dec_val s = foldl (\<lambda>a c. 10 * a + digit_val c) 0 s"

lemma digit_val_digit: "k < 10 \<Longrightarrow> digit_val (digit_chars ! k) = k"
proof -
  assume "k < 10"
  then have "k = 0 \<or> k = 1 \<or> k = 2 \<or> k = 3 \<or> k = 4 \<or> k = 5 \<or> k = 6 \<or> k = 7 \<or> k = 8 \<or> k = 9"
    by presburger
  then show ?thesis
    by (elim disjE) (simp_all add: digit_val_def digit_chars_def)
qed

lemma dec_val_str_nat: "dec_val (str_nat n) = n"
proof (induction n rule: str_nat.induct)
  case (1 n)
  show ?case
  proof (cases "n < 10")
    case True
    then show ?thesis by (simp add: str_nat.simps[of n] dec_val_def digit_val_digit)
  next
    case False
    with 1 have "dec_val (str_nat (n div 10)) = n div 10" by simp
    with False show ?thesis
      by (simp add: str_nat.simps[of n] dec_val_def digit_val_digit)
  qed
qed

lemma str_nat_inj: "str_nat m = str_nat n \<Longrightarrow> m = n"
  by (metis dec_val_str_nat)

lemma finite_auto_names: "finite {j. k \<le> j \<and> pfx @ str_nat j \<in> set names}"
proof -
  have "{j. k \<le> j \<and> pfx @ str_nat j \<in> set names}
          \<subseteq> (\<lambda>s. dec_val (drop (length pfx) s)) ` set names"
  proof
    fix j assume "j \<in> {j. k \<le> j \<and> pfx @ str_nat j \<in> set names}"
    then have m: "pfx @ str_nat j \<in> set names" by simp
    have "dec_val (drop (length pfx) (pfx @ str_nat j)) = j" by (simp add: dec_val_str_nat)
    with m show "j \<in> (\<lambda>s. dec_val (drop (length pfx) s)) ` set names" by force
  qed
  then show ?thesis by (rule finite_subset) simp
qed

text \<open>
  The loop of lines 227 to 231 (and 246 to 250, 258 to 262), from the counter \<open>k\<close>:
  \<^verbatim>\<open>
  while True:
      name = 'h' + str(self.__hnum)
      self.__hnum += 1
      if name not in self.__nxgraph:
          break
  \<close>
  It returns the name and the counter afterwards.
\<close>

function auto_name :: "string \<Rightarrow> nat \<Rightarrow> string list \<Rightarrow> string \<times> nat" where
  "auto_name pfx k names =
     (if pfx @ str_nat k \<in> set names then auto_name pfx (k + 1) names
      else (pfx @ str_nat k, k + 1))"
  by pat_completeness auto
termination
proof (relation "measure (\<lambda>(pfx, k, names). card {j. k \<le> j \<and> pfx @ str_nat j \<in> set names})")
  show "wf (measure (\<lambda>(pfx, k, names). card {j. k \<le> j \<and> pfx @ str_nat j \<in> set names}))"
    by simp
next
  fix pfx :: string and k :: nat and names :: "string list"
  assume m: "pfx @ str_nat k \<in> set names"
  have "{j. k + 1 \<le> j \<and> pfx @ str_nat j \<in> set names} \<subset> {j. k \<le> j \<and> pfx @ str_nat j \<in> set names}"
  proof
    show "{j. k + 1 \<le> j \<and> pfx @ str_nat j \<in> set names} \<subseteq> {j. k \<le> j \<and> pfx @ str_nat j \<in> set names}"
      by auto
    have "k \<in> {j. k \<le> j \<and> pfx @ str_nat j \<in> set names}" using m by simp
    moreover have "k \<notin> {j. k + 1 \<le> j \<and> pfx @ str_nat j \<in> set names}" by simp
    ultimately show "{j. k + 1 \<le> j \<and> pfx @ str_nat j \<in> set names} \<noteq> {j. k \<le> j \<and> pfx @ str_nat j \<in> set names}"
      by blast
  qed
  then have "card {j. k + 1 \<le> j \<and> pfx @ str_nat j \<in> set names}
               < card {j. k \<le> j \<and> pfx @ str_nat j \<in> set names}"
    by (rule psubset_card_mono[OF finite_auto_names])
  then show "((pfx, k + 1, names), (pfx, k, names))
      \<in> measure (\<lambda>(pfx, k, names). card {j. k \<le> j \<and> pfx @ str_nat j \<in> set names})"
    by simp
qed

declare auto_name.simps [simp del]

subsection \<open>Adding nodes and links\<close>

text \<open>The part that \<open>addHost\<close>, \<open>addSwitch\<close> and \<open>addRouter\<close> share: the same lines with
  another prefix, counter and class. \<open>get\<close> and \<open>put\<close> read and write the counter.\<close>

definition addTyped ::
  "string \<Rightarrow> (topology \<Rightarrow> nat) \<Rightarrow> (nat \<Rightarrow> topology \<Rightarrow> topology) \<Rightarrow> nodeclass \<Rightarrow>
   topology \<Rightarrow> string option \<Rightarrow> (error + string) \<times> topology" where
  "addTyped pfx get put c t name_opt =
     (case name_opt of
        None \<Rightarrow>
          (let (nm, k) = auto_name pfx (get t) (graph_nodes (nxgraph t));
               t1 = put k t
           in case addNode t1 nm c of
                (Inl e, t2) \<Rightarrow> (Inl e, t2)
              | (Inr u, t2) \<Rightarrow> (Inr nm, t2))
      | Some nm \<Rightarrow>
          (case addNode t nm c of
             (Inl e, t2) \<Rightarrow> (Inl e, t2)
           | (Inr u, t2) \<Rightarrow> (Inr nm, t2)))"

definition addHost :: "topology \<Rightarrow> string option \<Rightarrow> (error + string) \<times> topology" where
  "addHost = addTyped ''h'' hnum (\<lambda>k t. t\<lparr>hnum := k\<rparr>) Host"

definition addSwitch :: "topology \<Rightarrow> string option \<Rightarrow> (error + string) \<times> topology" where
  "addSwitch = addTyped ''s'' snum (\<lambda>k t. t\<lparr>snum := k\<rparr>) Switch"

definition addRouter :: "topology \<Rightarrow> string option \<Rightarrow> (error + string) \<times> topology" where
  "addRouter = addTyped ''r'' rnum (\<lambda>k t. t\<lparr>rnum := k\<rparr>) Router"

text \<open>Lines 275 to 281 of \<open>addLink\<close>: the two entries of \<open>macs\<close>, and the topology with its
  counter advanced.\<close>

definition alloc_macs :: "topology \<Rightarrow> (string option \<times> string option) \<times> topology" where
  "alloc_macs t =
     (if auto_macs t
      then ((Some (macaddr (topo_ifnum t)), Some (macaddr (topo_ifnum t + 1))),
            t\<lparr>topo_ifnum := topo_ifnum t + 2\<rparr>)
      else ((None, None), t))"

text \<open>\<open>self.__nxgraph.node[n]['nodeobj'].addInterface(ethaddr=mac)\<close>\<close>

definition node_addInterface ::
  "topology \<Rightarrow> string \<Rightarrow> string option \<Rightarrow> (error + string) \<times> topology" where
  "node_addInterface t n mac =
     (case graph_node (nxgraph t) n of
        Inl e \<Rightarrow> (Inl e, t)
      | Inr a \<Rightarrow>
          (Inr (fst (addInterface (nodeobj a) mac None None)),
           t\<lparr>nxgraph := map_nodeobj (nxgraph t) n (\<lambda>obj. snd (addInterface obj mac None None))\<rparr>))"

text \<open>Lines 284 to 291 of \<open>addLink\<close>: the edge and its attributes, for the interface
  names \<open>node1if\<close> and \<open>node2if\<close>.\<close>

definition store_link ::
  "util \<Rightarrow> 'o graph \<Rightarrow> string \<Rightarrow> string \<Rightarrow> string \<Rightarrow> string \<Rightarrow> string \<Rightarrow> string \<Rightarrow> 'o graph" where
  "store_link U g node1 node2 capacity delay node1if node2if =
     (let g1 = add_edge g node1 node2;
          capbits = unhumanize_capacity U capacity;
          delaysec = unhumanize_delay U delay;
          g2 = set_edge_attr g1 node1 node2 ''label''
                 (AStr (humanize_capacity U capbits @ '' '' @ humanize_delay U delaysec));
          g3 = set_edge_attr g2 node1 node2 ''capacity'' (AInt capbits);
          g4 = set_edge_attr g3 node1 node2 ''delay'' (AFloat delaysec);
          g5 = set_edge_attr g4 node1 node2 node1 (AStr node1if)
      in set_edge_attr g5 node1 node2 node2 (AStr node2if))"

text \<open>\<open>Topology.addLink\<close>\<close>

definition addLink ::
  "util \<Rightarrow> topology \<Rightarrow> string \<Rightarrow> string \<Rightarrow> string \<Rightarrow> string \<Rightarrow> (error + unit) \<times> topology" where
  "addLink U t node1 node2 capacity delay =
     (if \<not> has_node (nxgraph t) node1 \<or> \<not> has_node (nxgraph t) node2
      then (Inl UnknownNodeError, t)
      else
        let (macs, t1) = alloc_macs t in
        case node_addInterface t1 node1 (fst macs) of
          (Inl e, t2) \<Rightarrow> (Inl e, t2)
        | (Inr node1if, t2) \<Rightarrow>
        case node_addInterface t2 node2 (snd macs) of
          (Inl e, t3) \<Rightarrow> (Inl e, t3)
        | (Inr node2if, t3) \<Rightarrow>
            (Inr (), t3\<lparr>nxgraph := store_link U (nxgraph t3) node1 node2 capacity delay
                                       node1if node2if\<rparr>))"


text \<open>The interface object \<open>ifname\<close> of the node \<open>n\<close>, replaced by its state after a setter.\<close>

definition put_interface :: "topology \<Rightarrow> string \<Rightarrow> string \<Rightarrow> interface \<Rightarrow> topology" where
  "put_interface t n ifname i =
     t\<lparr>nxgraph := map_nodeobj (nxgraph t) n
         (\<lambda>obj. obj\<lparr>interfaces := AList.update ifname i (interfaces obj)\<rparr>)\<rparr>"

text \<open>\<open>Topology.setInterfaceAddresses\<close> and \<open>Topology.getInterfaceAddresses\<close>: an argument
  that is \<open>None\<close> or an empty string is skipped.\<close>

definition setInterfaceAddresses ::
  "topology \<Rightarrow> string \<Rightarrow> string \<Rightarrow> string option \<Rightarrow> ipval option \<Rightarrow> ipval option \<Rightarrow>
   (error + unit) \<times> topology" where
  "setInterfaceAddresses t n ifname mac ip nmask =
     (case getNode t n of
        Inl e \<Rightarrow> (Inl e, t)
      | Inr a \<Rightarrow>
          (case getInterface (nodeobj a) ifname of
             Inl e \<Rightarrow> (Inl e, t)
           | Inr intf \<Rightarrow>
               let i1 = (if mac \<noteq> None \<and> mac \<noteq> Some [] then set_ethaddr mac intf else intf);
                   i2 = (if ip \<noteq> None \<and> ip \<noteq> Some (Text []) then set_ipaddr ip i1 else i1);
                   i3 = (if nmask \<noteq> None \<and> nmask \<noteq> Some (Text []) then set_netmask nmask i2 else i2)
               in (Inr (), put_interface t n ifname i3)))"

definition getInterfaceAddresses ::
  "topology \<Rightarrow> string \<Rightarrow> string \<Rightarrow> error + (string \<times> ipval \<times> ipval)" where
  "getInterfaceAddresses t n ifname =
     (case getNode t n of
        Inl e \<Rightarrow> Inl e
      | Inr a \<Rightarrow>
          (case getInterface (nodeobj a) ifname of
             Inl e \<Rightarrow> Inl e
           | Inr intf \<Rightarrow> Inr (ethaddr intf, ipaddr intf, netmask intf)))"

subsection \<open>Address assignment\<close>













subsection \<open>Prefixing and union\<close>

text \<open>\<open>renamer\<close> of \<open>__relabel_graph\<close>\<close>

definition renamer :: "string \<Rightarrow> string \<Rightarrow> string" where
  "renamer prefix nm = prefix @ ''_'' @ nm"

text \<open>\<open>d[new] = d[old]; del d[old]\<close>\<close>

definition move_key :: "edict \<Rightarrow> string \<Rightarrow> string \<Rightarrow> error + edict" where
  "move_key d new old =
     (case map_of d old of
        None \<Rightarrow> Inl KeyError
      | Some x \<Rightarrow> Inr (AList.delete old (AList.update new x d)))"

text \<open>Lines 391 to 395 for the edges of the relabelled graph.\<close>

fun relabel_edges ::
  "nat \<Rightarrow> ((string \<times> string) \<times> edict) list \<Rightarrow> error + ((string \<times> string) \<times> edict) list" where
  "relabel_edges plen [] = Inr []"
| "relabel_edges plen (((u, v), d) # es) =
     (case move_key d u (drop (plen + 1) u) of
        Inl e \<Rightarrow> Inl e
      | Inr d1 \<Rightarrow>
          (case move_key d1 v (drop (plen + 1) v) of
             Inl e \<Rightarrow> Inl e
           | Inr d2 \<Rightarrow>
               (case relabel_edges plen es of
                  Inl e \<Rightarrow> Inl e
                | Inr es' \<Rightarrow> Inr (((u, v), d2) # es'))))"

text \<open>
  \<open>Topology.__relabel_graph\<close> with a prefix that is a string. \<open>nx.relabel_nodes\<close> with
  \<open>copy=True\<close> builds a new graph from the renamed edges and then the renamed nodes, so
  the endpoints of edges come first in the order of its nodes.
\<close>

definition relabel_graph :: "node graph \<Rightarrow> string \<Rightarrow> error + node graph" where
  "relabel_graph g prefix =
     (let f = renamer prefix;
          renamed = map (\<lambda>(n, a). (f n, a\<lparr>label := f n\<rparr>)) (gnodes g);
          order = rev (remdups (rev
                    (concat (map (\<lambda>((u, v), d). [f u, f v]) (gedges g)) @ map fst renamed)));
          ns = concat (map (\<lambda>n. case map_of renamed n of None \<Rightarrow> [] | Some a \<Rightarrow> [(n, a)]) order)
      in case relabel_edges (length prefix) (map (\<lambda>((u, v), d). ((f u, f v), d)) (gedges g)) of
           Inl e \<Rightarrow> Inl e
         | Inr es \<Rightarrow> Inr \<lparr>gname = gname g, gnodes = ns, gedges = es\<rparr>)"

text \<open>
  \<open>nx.union(G, H, name=...)\<close>: an error when the graphs share a node; otherwise the nodes
  and edges of \<open>G\<close> followed by those of \<open>H\<close>. The graph attributes of \<open>G\<close> and then of \<open>H\<close>
  are copied over the name given, so the union carries the name of \<open>H\<close>.
\<close>

definition graph_union :: "'o graph \<Rightarrow> 'o graph \<Rightarrow> string \<Rightarrow> error + 'o graph" where
  "graph_union G H nm =
     (if set (graph_nodes G) \<inter> set (graph_nodes H) \<noteq> {} then Inl NodeNameCollisionError
      else Inr \<lparr>gname = gname H, gnodes = gnodes G @ gnodes H, gedges = gedges G @ gedges H\<rparr>)"

text \<open>\<open>Topology.union\<close>: the outcome, and the receiver and \<open>other\<close> after the call.\<close>

definition union_topology ::
  "topology \<Rightarrow> topology \<Rightarrow> bool \<Rightarrow> (error + topology) \<times> topology \<times> topology" where
  "union_topology self other rename =
     (case (if rename then
              (case relabel_graph (nxgraph self) (topo_name self) of
                 Inl e \<Rightarrow> (Inl e, self, other)
               | Inr g1 \<Rightarrow>
                   (case relabel_graph (nxgraph other) (topo_name other) of
                      Inl e \<Rightarrow> (Inl e, self\<lparr>nxgraph := g1\<rparr>, other)
                    | Inr g2 \<Rightarrow> (Inr (), self\<lparr>nxgraph := g1\<rparr>, other\<lparr>nxgraph := g2\<rparr>)))
            else (Inr (), self, other)) of
        (Inl e, self1, other1) \<Rightarrow> (Inl e, self1, other1)
      | (Inr u, self1, other1) \<Rightarrow>
          (let nm = topo_name self1 @ ''_'' @ topo_name other1 in
           case graph_union (nxgraph self1) (nxgraph other1) nm of
             Inl e \<Rightarrow> (Inl e, self1, other1)
           | Inr g \<Rightarrow> (Inr (Topology nm (Some g) True), self1, other1)))"

section \<open>Serialization\<close>

text \<open>
  \<open>serialize\<close> hands the node-link form of the graph to \<open>json.dumps\<close>, and \<open>unserialize\<close>
  reads it back with \<open>json.loads\<close>. The JSON text itself is the standard library's; the
  model stops at the document that is written and read: the graph's name, one
  dictionary for each node (its \<open>id\<close> and its attributes, the node object as \<open>asDict\<close>
  gives it) and one dictionary for each link (the edge's attributes with \<open>source\<close> and
  \<open>target\<close>, the positions of its endpoints among the nodes). A node of a document may
  lack its \<open>nodeobj\<close>.
\<close>

record jdoc =
  jd_name :: string
  jd_nodes :: "(string \<times> jnodeobj option nodeattrs) list"
  jd_links :: "edict list"

fun index_of :: "'a \<Rightarrow> 'a list \<Rightarrow> nat" where
  "index_of x [] = 0"
| "index_of x (y # ys) = (if x = y then 0 else Suc (index_of x ys))"

text \<open>\<open>json_graph.node_link_data\<close>, with \<open>Encoder.default\<close> applied to the node objects.\<close>

definition node_link_data :: "node graph \<Rightarrow> jdoc" where
  "node_link_data g =
     \<lparr>jd_name = gname g,
      jd_nodes = map (\<lambda>(n, a). (n, \<lparr>label = label a, nodeobj = Some (asDict (nodeobj a)),
                                    ntype = ntype a\<rparr>)) (gnodes g),
      jd_links = map (\<lambda>((u, v), d).
                    AList.update ''target'' (AInt (int (index_of v (graph_nodes g))))
                      (AList.update ''source'' (AInt (int (index_of u (graph_nodes g)))) d))
                   (gedges g)\<rparr>"

text \<open>\<open>Topology.serialize\<close>\<close>

definition serialize :: "topology \<Rightarrow> jdoc" where
  "serialize t = node_link_data (nxgraph t)"

text \<open>\<open>graph.add_node(node, attr_dict=nodedata)\<close>: a node that exists has its attributes
  updated by the keys given.\<close>

definition add_node_attrs ::
  "jnodeobj option graph \<Rightarrow> string \<Rightarrow> jnodeobj option nodeattrs \<Rightarrow> jnodeobj option graph" where
  "add_node_attrs g n a =
     (case map_of (gnodes g) n of
        None \<Rightarrow> g\<lparr>gnodes := gnodes g @ [(n, a)]\<rparr>
      | Some old \<Rightarrow>
          g\<lparr>gnodes := AList.update n
               (a\<lparr>nodeobj := (case nodeobj a of None \<Rightarrow> nodeobj old | Some x \<Rightarrow> Some x)\<rparr>)
               (gnodes g)\<rparr>)"

text \<open>\<open>mapping[src]\<close> for a value read from the document: an integer indexes the list,
  from its end when negative.\<close>

definition mapping_item :: "string list \<Rightarrow> attr \<Rightarrow> error + string" where
  "mapping_item m a =
     (case a of
        AInt i \<Rightarrow>
          (let j = (if i < 0 then int (length m) + i else i)
           in if 0 \<le> j \<and> j < int (length m) then Inr (m ! nat j) else Inl IndexError)
      | _ \<Rightarrow> Inl TypeError)"

text \<open>\<open>graph.add_edge(u, v, attr_dict=edgedata)\<close>\<close>

definition add_edge_attrs :: "'o graph \<Rightarrow> string \<Rightarrow> string \<Rightarrow> edict \<Rightarrow> 'o graph" where
  "add_edge_attrs g u v edgedata =
     (if has_edge g u v
      then g\<lparr>gedges := map (\<lambda>(k, d). if same_edge u v k
                              then (k, foldl (\<lambda>acc (key, val). AList.update key val acc) d edgedata)
                              else (k, d)) (gedges g)\<rparr>
      else g\<lparr>gedges := gedges g @ [((u, v), edgedata)]\<rparr>)"

fun add_links :: "string list \<Rightarrow> 'o graph \<Rightarrow> edict list \<Rightarrow> error + 'o graph" where
  "add_links m g [] = Inr g"
| "add_links m g (d # ds) =
     (case map_of d ''source'' of
        None \<Rightarrow> Inl KeyError
      | Some src \<Rightarrow>
          (case map_of d ''target'' of
             None \<Rightarrow> Inl KeyError
           | Some tgt \<Rightarrow>
               (case mapping_item m src of
                  Inl e \<Rightarrow> Inl e
                | Inr u \<Rightarrow>
                    (case mapping_item m tgt of
                       Inl e \<Rightarrow> Inl e
                     | Inr v \<Rightarrow>
                         add_links m
                           (add_edge_attrs g u v
                              (filter (\<lambda>(k, x). k \<noteq> ''source'' \<and> k \<noteq> ''target'') d))
                           ds))))"

text \<open>\<open>json_graph.node_link_graph\<close>\<close>

definition node_link_graph :: "jdoc \<Rightarrow> error + jnodeobj option graph" where
  "node_link_graph data =
     add_links (map fst (jd_nodes data))
       (foldl (\<lambda>g (n, a). add_node_attrs g n a) (Graph (jd_name data)) (jd_nodes data))
       (jd_links data)"

text \<open>\<open>eval(nobj['nodetype'])\<close>: one of the three classes, or a name that is not defined.\<close>

definition eval_class :: "string \<Rightarrow> error + nodeclass" where
  "eval_class s =
     (if s = ''Host'' then Inr Host
      else if s = ''Switch'' then Inr Switch
      else if s = ''Router'' then Inr Router
      else Inl NameError)"

text \<open>The loop of \<open>unserialize\<close> (lines 306 to 311): the keyword arguments of the class
  are the attributes of the node, \<open>label\<close>, \<open>nodeobj\<close> and \<open>type\<close>.\<close>

fun build_nodes ::
  "(string \<times> jnodeobj option nodeattrs) list \<Rightarrow> error + (string \<times> node nodeattrs) list" where
  "build_nodes [] = Inr []"
| "build_nodes ((n, ndict) # rest) =
     (case nodeobj ndict of
        None \<Rightarrow> Inl MalformedTopologyError
      | Some nobj \<Rightarrow>
          (case eval_class (nodetype nobj) of
             Inl e \<Rightarrow> Inl e
           | Inr c \<Rightarrow>
               (case Node_init c [(''label'', KStr (label ndict)), (''nodeobj'', KObj nobj),
                                  (''type'', KStr (ntype ndict))] of
                  Inl e \<Rightarrow> Inl e
                | Inr obj \<Rightarrow>
                    (case build_nodes rest of
                       Inl e \<Rightarrow> Inl e
                     | Inr rest' \<Rightarrow>
                         Inr ((n, \<lparr>label = label ndict, nodeobj = obj, ntype = ntype ndict\<rparr>)
                              # rest')))))"

text \<open>\<open>Topology.unserialize\<close>\<close>

definition unserialize :: "jdoc \<Rightarrow> error + topology" where
  "unserialize topod =
     (case node_link_graph topod of
        Inl e \<Rightarrow> Inl e
      | Inr G \<Rightarrow>
          (case build_nodes (gnodes G) of
             Inl e \<Rightarrow> Inl e
           | Inr ns \<Rightarrow>
               Inr (Topology ''No name topology''
                      (Some \<lparr>gname = gname G, gnodes = ns, gedges = gedges G\<rparr>) True)))"

section \<open>Example topologies\<close>

text \<open>Stand-ins for the parsing and formatting functions of \<open>switchyard.lib.topo.util\<close>,
  for the examples only.\<close>

definition example_util :: util where
  "example_util =
     \<lparr>unhumanize_capacity = (\<lambda>s. 100000000), unhumanize_delay = (\<lambda>s. 1 / 100),
      humanize_capacity = (\<lambda>c. ''100 Mb/s''), humanize_delay = (\<lambda>d. ''10 ms'')\<rparr>"

text \<open>\<open>t = Topology(); t.addHost(); t.addHost(); t.addSwitch()\<close>: the nodes \<open>h0\<close>, \<open>h1\<close>
  and \<open>s0\<close>.\<close>

definition example_nodes :: topology where
  "example_nodes =
     snd (addSwitch (snd (addHost (snd (addHost (Topology ''No name topology'' None True) None))
       None)) None)"

text \<open>\<open>t.addLink('h0', 's0', '100mbps', '10ms')\<close>\<close>

definition example_one_link :: topology where
  "example_one_link = snd (addLink example_util example_nodes ''h0'' ''s0'' ''100mbps'' ''10ms'')"

text \<open>\<open>t.addLink('h1', 's0', '100mbps', '10ms')\<close>\<close>

definition example_topology :: topology where
  "example_topology =
     snd (addLink example_util example_one_link ''h1'' ''s0'' ''100mbps'' ''10ms'')"

text \<open>The interfaces of every node, by name.\<close>

definition node_interfaces :: "topology \<Rightarrow> (string \<times> (string \<times> interface) list) list" where
  "node_interfaces t = map (\<lambda>(n, a). (n, interfaces (nodeobj a))) (gnodes (nxgraph t))"

section \<open>Serialization round trip\<close>

text \<open>
  Claim C1: \<open>deserialize(serialize(t))\<close> has the nodes, node types, interface records and
  links of \<open>t\<close>. The code does not do this. \<open>unserialize\<close> passes the attributes of the
  node to the class (\<open>cls(**dict(ndict))\<close>), not the serialized node object, so
  \<open>Node.__init__\<close> finds no \<open>interfaces\<close> among its keyword arguments and the code that
  rebuilds the interfaces never runs. On the topology with the link \<open>h0\<close> -- \<open>s0\<close>, the
  interfaces \<open>eth0\<close> of \<open>h0\<close> and of \<open>s0\<close> are gone after the round trip.
\<close>

theorem unserialize_drops_interfaces:
  "node_interfaces example_one_link =
     [(''h0'', [(''eth0'', \<lparr>intf_name = ''eth0'', ethaddr = ''00:00:00:00:00:01'',
                            ipaddr = Text ''0.0.0.0'', netmask = Text ''255.255.255.255''\<rparr>)]),
      (''h1'', []),
      (''s0'', [(''eth0'', \<lparr>intf_name = ''eth0'', ethaddr = ''00:00:00:00:00:02'',
                            ipaddr = Text ''0.0.0.0'', netmask = Text ''255.255.255.255''\<rparr>)])]
   \<and> map_sum id node_interfaces (unserialize (serialize example_one_link)) =
     Inr [(''h0'', []), (''h1'', []), (''s0'', [])]"
  by code_simp

section \<open>Interface names\<close>

text \<open>
  Claim C9: \<open>addInterface\<close> never returns a name that the node already has, also on a
  node rebuilt from serialized interfaces. The code does not do this: \<open>Node.__init__\<close>
  sets \<open>ifnum\<close> to 0 and then stores the interfaces it is given, so on a host rebuilt with
  the interface \<open>eth0\<close> the next \<open>addInterface\<close> returns \<open>eth0\<close> again and replaces the
  interface that was there.
\<close>

theorem addInterface_after_reconstruction:
  "Node_init Host [(''interfaces'', KIfs [(''eth0'', ''eth0 mac:00:00:00:00:00:01'')])] =
     Inr \<lparr>cls = Host, ifnum = 0,
          interfaces = [(''eth0'', \<lparr>intf_name = ''eth0'', ethaddr = ''00:00:00:00:00:01'',
                                    ipaddr = Text ''0.0.0.0'', netmask = Text ''255.255.255.255''\<rparr>)]\<rparr>
   \<and> addInterface \<lparr>cls = Host, ifnum = 0,
          interfaces = [(''eth0'', \<lparr>intf_name = ''eth0'', ethaddr = ''00:00:00:00:00:01'',
                                    ipaddr = Text ''0.0.0.0'', netmask = Text ''255.255.255.255''\<rparr>)]\<rparr>
        None None None =
     (''eth0'', \<lparr>cls = Host, ifnum = 1,
          interfaces = [(''eth0'', \<lparr>intf_name = ''eth0'', ethaddr = ''00:00:00:00:00:00'',
                                    ipaddr = Text ''0.0.0.0'', netmask = Text ''255.255.255.255''\<rparr>)]\<rparr>)"
  by code_simp

section \<open>Facts about the graph operations\<close>

lemma graph_nodes_map_nodeobj [simp]: "graph_nodes (map_nodeobj g n f) = graph_nodes g"
  by (auto simp: graph_nodes_def map_nodeobj_def split: prod.splits)

lemma has_node_map_nodeobj [simp]: "has_node (map_nodeobj g n f) m = has_node g m"
  by (simp add: has_node_def)

lemma gedges_map_nodeobj [simp]: "gedges (map_nodeobj g n f) = gedges g"
  by (simp add: map_nodeobj_def)

lemma gname_map_nodeobj [simp]: "gname (map_nodeobj g n f) = gname g"
  by (simp add: map_nodeobj_def)

lemma has_node_graph_node: "has_node g n \<Longrightarrow> \<exists>a. graph_node g n = Inr a"
proof -
  assume "has_node g n"
  then have "n \<in> fst ` set (gnodes g)" by (simp add: has_node_def graph_nodes_def)
  then obtain a where "map_of (gnodes g) n = Some a"
    by (metis domD dom_map_of_conv_image_fst)
  then show ?thesis by (simp add: graph_node_def)
qed

lemma gnodes_set_edge_attr [simp]: "gnodes (set_edge_attr g u v key val) = gnodes g"
  by (simp add: set_edge_attr_def)

lemma graph_edges_set_edge_attr [simp]:
  "graph_edges (set_edge_attr g u v key val) = graph_edges g"
  by (auto simp: graph_edges_def set_edge_attr_def split: prod.splits)

lemma gnodes_add_edge [simp]: "gnodes (add_edge g u v) = gnodes g"
  by (simp add: add_edge_def)

lemma find_map_keys:
  "find (\<lambda>(k, d). P k) (map (\<lambda>(k, d). (k, f k d)) xs) =
   map_option (\<lambda>(k, d). (k, f k d)) (find (\<lambda>(k, d). P k) xs)"
  by (induction xs) auto

lemma find_edge_set_edge_attr:
  "find_edge (set_edge_attr g u v key val) a b =
   map_option (\<lambda>(k, d). (k, if same_edge u v k then AList.update key val d else d))
     (find_edge g a b)"
proof -
  have "(\<lambda>(k, d). if same_edge u v k then (k, AList.update key val d) else (k, d)) =
        (\<lambda>(k, d). (k, if same_edge u v k then AList.update key val d else d))"
    by auto
  then show ?thesis
    by (simp add: find_edge_def set_edge_attr_def
        find_map_keys[where f = "\<lambda>k d. if same_edge u v k then AList.update key val d else d"])
qed

lemma find_edge_key: "find_edge g a b = Some (k, d) \<Longrightarrow> same_edge a b k"
  by (auto simp: find_edge_def find_Some_iff)

lemma same_edge_sym: "same_edge a b k \<Longrightarrow> same_edge u v k = same_edge u v (a, b)"
  by (auto simp: same_edge_def)

lemma has_edge_set_edge_attr [simp]: "has_edge (set_edge_attr g u v key val) a b = has_edge g a b"
  by (simp add: has_edge_def find_edge_set_edge_attr)

section \<open>Link interfaces\<close>




section \<open>Adding links and nodes\<close>

lemma nodes_graph_nodes: "nodes t = graph_nodes (nxgraph t)"
  by (simp add: nodes_def getnodes_def)

lemma alloc_macs_nxgraph [simp]: "nxgraph (snd (alloc_macs t)) = nxgraph t"
  by (simp add: alloc_macs_def)

lemma node_addInterface_ok:
  "graph_node (nxgraph t) n = Inr a \<Longrightarrow>
   node_addInterface t n mac =
     (Inr (fst (addInterface (nodeobj a) mac None None)),
      t\<lparr>nxgraph := map_nodeobj (nxgraph t) n (\<lambda>obj. snd (addInterface obj mac None None))\<rparr>)"
  by (simp add: node_addInterface_def)

lemma addLink_unknown:
  "\<not> has_node (nxgraph t) a \<or> \<not> has_node (nxgraph t) b \<Longrightarrow>
   addLink U t a b c d = (Inl UnknownNodeError, t)"
  by (simp add: addLink_def)

lemma addLink_eq:
  assumes "has_node (nxgraph t) a" and "has_node (nxgraph t) b"
  shows "\<exists>a1 b1.
     graph_node (nxgraph t) a = Inr a1 \<and>
     graph_node (map_nodeobj (nxgraph t) a
        (\<lambda>obj. snd (addInterface obj (fst (fst (alloc_macs t))) None None))) b = Inr b1 \<and>
     addLink U t a b c d =
       (Inr (), (snd (alloc_macs t))\<lparr>nxgraph :=
          store_link U
            (map_nodeobj
               (map_nodeobj (nxgraph t) a
                  (\<lambda>obj. snd (addInterface obj (fst (fst (alloc_macs t))) None None)))
               b (\<lambda>obj. snd (addInterface obj (snd (fst (alloc_macs t))) None None)))
            a b c d
            (fst (addInterface (nodeobj a1) (fst (fst (alloc_macs t))) None None))
            (fst (addInterface (nodeobj b1) (snd (fst (alloc_macs t))) None None))\<rparr>)"
proof -
  obtain macs t1 where m: "alloc_macs t = (macs, t1)" by (cases "alloc_macs t")
  then have g1: "nxgraph t1 = nxgraph t" using alloc_macs_nxgraph[of t] by simp
  from assms(1) obtain a1 where a1: "graph_node (nxgraph t) a = Inr a1"
    using has_node_graph_node by blast
  let ?ga = "map_nodeobj (nxgraph t) a (\<lambda>obj. snd (addInterface obj (fst macs) None None))"
  have "has_node ?ga b" using assms(2) by simp
  then obtain b1 where b1: "graph_node ?ga b = Inr b1"
    using has_node_graph_node by blast
  have n1: "node_addInterface t1 a (fst macs) =
      (Inr (fst (addInterface (nodeobj a1) (fst macs) None None)), t1\<lparr>nxgraph := ?ga\<rparr>)"
    using node_addInterface_ok[of t1 a a1 "fst macs"] a1 g1 by simp
  have n2: "node_addInterface (t1\<lparr>nxgraph := ?ga\<rparr>) b (snd macs) =
      (Inr (fst (addInterface (nodeobj b1) (snd macs) None None)),
       t1\<lparr>nxgraph := map_nodeobj ?ga b (\<lambda>obj. snd (addInterface obj (snd macs) None None))\<rparr>)"
    using node_addInterface_ok[of "t1\<lparr>nxgraph := ?ga\<rparr>" b b1 "snd macs"] b1 by simp
  have "addLink U t a b c d =
       (Inr (), t1\<lparr>nxgraph :=
          store_link U (map_nodeobj ?ga b (\<lambda>obj. snd (addInterface obj (snd macs) None None)))
            a b c d
            (fst (addInterface (nodeobj a1) (fst macs) None None))
            (fst (addInterface (nodeobj b1) (snd macs) None None))\<rparr>)"
    using assms m n1 n2 by (simp add: addLink_def)
  with a1 b1 m show ?thesis by simp
qed



lemma has_edge_map_nodeobj [simp]: "has_edge (map_nodeobj g n f) a b = has_edge g a b"
  by (simp add: has_edge_def find_edge_def)

lemma graph_edges_map_nodeobj [simp]: "graph_edges (map_nodeobj g n f) = graph_edges g"
  by (simp add: graph_edges_def)




subsection \<open>Node names\<close>

lemma auto_name_form:
  "\<exists>j\<ge>k. auto_name pfx k names = (pfx @ str_nat j, j + 1) \<and> pfx @ str_nat j \<notin> set names"
proof (induction pfx k names rule: auto_name.induct)
  case (1 pfx k names)
  show ?case
  proof (cases "pfx @ str_nat k \<in> set names")
    case True
    with 1 obtain j where "j \<ge> k + 1" and
      "auto_name pfx (k + 1) names = (pfx @ str_nat j, j + 1) \<and> pfx @ str_nat j \<notin> set names"
      by blast
    with True show ?thesis
      by (subst auto_name.simps) (auto intro!: exI[of _ j])
  next
    case False
    then show ?thesis
      by (subst auto_name.simps) (auto intro!: exI[of _ k])
  qed
qed

lemma Node_init_empty: "Node_init c [] = Inr \<lparr>cls = c, ifnum = 0, interfaces = []\<rparr>"
  by (simp add: Node_init_def)

lemma addNode_dup: "nm \<in> set (nodes t) \<Longrightarrow> addNode t nm c = (Inl DuplicateNodeError, t)"
  by (simp add: addNode_def)

lemma addNode_new:
  "nm \<notin> set (nodes t) \<Longrightarrow>
   addNode t nm c = (Inr (), t\<lparr>nxgraph := add_node (nxgraph t) nm
       \<lparr>label = nm, nodeobj = \<lparr>cls = c, ifnum = 0, interfaces = []\<rparr>, ntype = class_name c\<rparr>\<rparr>)"
  by (simp add: addNode_def Node_init_empty)

lemma graph_nodes_add_node [simp]: "graph_nodes (add_node g n a) = graph_nodes g @ [n]"
  by (simp add: graph_nodes_def add_node_def)

lemma addTyped_named_dup:
  "nm \<in> set (nodes t) \<Longrightarrow> addTyped pfx get put c t (Some nm) = (Inl DuplicateNodeError, t)"
  by (simp add: addTyped_def addNode_dup)

lemma addTyped_named_new:
  "nm \<notin> set (nodes t) \<Longrightarrow>
   addTyped pfx get put c t (Some nm) =
     (Inr nm, t\<lparr>nxgraph := add_node (nxgraph t) nm
       \<lparr>label = nm, nodeobj = \<lparr>cls = c, ifnum = 0, interfaces = []\<rparr>, ntype = class_name c\<rparr>\<rparr>)"
  by (simp add: addTyped_def addNode_new)

lemma addTyped_auto:
  assumes "\<And>k. nxgraph (put k t) = nxgraph t"
  shows "\<exists>j\<ge>get t. pfx @ str_nat j \<notin> set (nodes t) \<and>
     addTyped pfx get put c t None =
       (Inr (pfx @ str_nat j), (put (j + 1) t)\<lparr>nxgraph := add_node (nxgraph t) (pfx @ str_nat j)
          \<lparr>label = pfx @ str_nat j, nodeobj = \<lparr>cls = c, ifnum = 0, interfaces = []\<rparr>,
           ntype = class_name c\<rparr>\<rparr>)"
proof -
  obtain j where j: "j \<ge> get t"
    and a: "auto_name pfx (get t) (graph_nodes (nxgraph t)) = (pfx @ str_nat j, j + 1)"
    and f: "pfx @ str_nat j \<notin> set (graph_nodes (nxgraph t))"
    using auto_name_form[of "get t" pfx "graph_nodes (nxgraph t)"] by blast
  have "pfx @ str_nat j \<notin> set (nodes (put (j + 1) t))"
    using f assms by (simp add: nodes_graph_nodes)
  then have "addNode (put (j + 1) t) (pfx @ str_nat j) c =
      (Inr (), (put (j + 1) t)\<lparr>nxgraph := add_node (nxgraph t) (pfx @ str_nat j)
          \<lparr>label = pfx @ str_nat j, nodeobj = \<lparr>cls = c, ifnum = 0, interfaces = []\<rparr>,
           ntype = class_name c\<rparr>\<rparr>)"
    using assms by (simp add: addNode_new)
  with a j f show ?thesis
    by (auto simp: addTyped_def nodes_graph_nodes intro!: exI[of _ j])
qed




lemma addTyped_distinct:
  assumes "\<And>k. nxgraph (put k t) = nxgraph t" and "distinct (nodes t)"
  shows "distinct (nodes (snd (addTyped pfx get put c t n)))"
proof (cases n)
  case None
  then show ?thesis
    using addTyped_auto[of put t get pfx c, OF assms(1)] assms(2)
    by (auto simp: nodes_graph_nodes)
next
  case (Some nm)
  then show ?thesis using assms(2)
    by (cases "nm \<in> set (nodes t)")
       (auto simp: addTyped_named_dup addTyped_named_new nodes_graph_nodes)
qed

lemma addHost_auto:
  "\<exists>j t'. addHost t None = (Inr (''h'' @ str_nat j), t') \<and> hnum t \<le> j \<and> hnum t' = j + 1 \<and>
     ''h'' @ str_nat j \<notin> set (nodes t) \<and>
     (\<forall>i<hnum t. ''h'' @ str_nat i \<noteq> ''h'' @ str_nat j) \<and>
     nodes t' = nodes t @ [''h'' @ str_nat j]"
proof -
  obtain j where j: "j \<ge> hnum t" and f: "''h'' @ str_nat j \<notin> set (nodes t)"
    and e: "addHost t None = (Inr (''h'' @ str_nat j), (t\<lparr>hnum := j + 1\<rparr>)\<lparr>nxgraph :=
       add_node (nxgraph t) (''h'' @ str_nat j)
          \<lparr>label = ''h'' @ str_nat j, nodeobj = \<lparr>cls = Host, ifnum = 0, interfaces = []\<rparr>,
           ntype = class_name Host\<rparr>\<rparr>)"
    using addTyped_auto[of "\<lambda>k t. t\<lparr>hnum := k\<rparr>" t hnum "''h''" Host]
    unfolding addHost_def by auto
  have "\<forall>i<hnum t. ''h'' @ str_nat i \<noteq> ''h'' @ str_nat j"
    using j str_nat_inj by fastforce
  with j f e show ?thesis by (simp add: nodes_graph_nodes)
qed

lemma addSwitch_auto:
  "\<exists>j t'. addSwitch t None = (Inr (''s'' @ str_nat j), t') \<and> snum t \<le> j \<and> snum t' = j + 1 \<and>
     ''s'' @ str_nat j \<notin> set (nodes t) \<and>
     (\<forall>i<snum t. ''s'' @ str_nat i \<noteq> ''s'' @ str_nat j) \<and>
     nodes t' = nodes t @ [''s'' @ str_nat j]"
proof -
  obtain j where j: "j \<ge> snum t" and f: "''s'' @ str_nat j \<notin> set (nodes t)"
    and e: "addSwitch t None = (Inr (''s'' @ str_nat j), (t\<lparr>snum := j + 1\<rparr>)\<lparr>nxgraph :=
       add_node (nxgraph t) (''s'' @ str_nat j)
          \<lparr>label = ''s'' @ str_nat j, nodeobj = \<lparr>cls = Switch, ifnum = 0, interfaces = []\<rparr>,
           ntype = class_name Switch\<rparr>\<rparr>)"
    using addTyped_auto[of "\<lambda>k t. t\<lparr>snum := k\<rparr>" t snum "''s''" Switch]
    unfolding addSwitch_def by auto
  have "\<forall>i<snum t. ''s'' @ str_nat i \<noteq> ''s'' @ str_nat j"
    using j str_nat_inj by fastforce
  with j f e show ?thesis by (simp add: nodes_graph_nodes)
qed

lemma addRouter_auto:
  "\<exists>j t'. addRouter t None = (Inr (''r'' @ str_nat j), t') \<and> rnum t \<le> j \<and> rnum t' = j + 1 \<and>
     ''r'' @ str_nat j \<notin> set (nodes t) \<and>
     (\<forall>i<rnum t. ''r'' @ str_nat i \<noteq> ''r'' @ str_nat j) \<and>
     nodes t' = nodes t @ [''r'' @ str_nat j]"
proof -
  obtain j where j: "j \<ge> rnum t" and f: "''r'' @ str_nat j \<notin> set (nodes t)"
    and e: "addRouter t None = (Inr (''r'' @ str_nat j), (t\<lparr>rnum := j + 1\<rparr>)\<lparr>nxgraph :=
       add_node (nxgraph t) (''r'' @ str_nat j)
          \<lparr>label = ''r'' @ str_nat j, nodeobj = \<lparr>cls = Router, ifnum = 0, interfaces = []\<rparr>,
           ntype = class_name Router\<rparr>\<rparr>)"
    using addTyped_auto[of "\<lambda>k t. t\<lparr>rnum := k\<rparr>" t rnum "''r''" Router]
    unfolding addRouter_def by auto
  have "\<forall>i<rnum t. ''r'' @ str_nat i \<noteq> ''r'' @ str_nat j"
    using j str_nat_inj by fastforce
  with j f e show ?thesis by (simp add: nodes_graph_nodes)
qed

text \<open>
  Claim C6: \<open>addHost\<close>, \<open>addSwitch\<close> and \<open>addRouter\<close> with a name that is a node already
  fail with the duplicate-node error and change nothing. Without a name they return (the
  naming loop ends) a name \<open>h<j>\<close>, \<open>s<j>\<close> or \<open>r<j>\<close> that is no node of the topology
  and differs from the name of every counter value used before; the counter moves past
  \<open>j\<close>, and the new name is the one node added. Distinct node names stay distinct.
\<close>

theorem node_names_unique:
  "(nm \<in> set (nodes t) \<longrightarrow>
      addHost t (Some nm) = (Inl DuplicateNodeError, t) \<and>
      addSwitch t (Some nm) = (Inl DuplicateNodeError, t) \<and>
      addRouter t (Some nm) = (Inl DuplicateNodeError, t)) \<and>
   (\<exists>j t'. addHost t None = (Inr (''h'' @ str_nat j), t') \<and> hnum t \<le> j \<and> hnum t' = j + 1 \<and>
      ''h'' @ str_nat j \<notin> set (nodes t) \<and>
      (\<forall>i<hnum t. ''h'' @ str_nat i \<noteq> ''h'' @ str_nat j) \<and>
      nodes t' = nodes t @ [''h'' @ str_nat j]) \<and>
   (\<exists>j t'. addSwitch t None = (Inr (''s'' @ str_nat j), t') \<and> snum t \<le> j \<and> snum t' = j + 1 \<and>
      ''s'' @ str_nat j \<notin> set (nodes t) \<and>
      (\<forall>i<snum t. ''s'' @ str_nat i \<noteq> ''s'' @ str_nat j) \<and>
      nodes t' = nodes t @ [''s'' @ str_nat j]) \<and>
   (\<exists>j t'. addRouter t None = (Inr (''r'' @ str_nat j), t') \<and> rnum t \<le> j \<and> rnum t' = j + 1 \<and>
      ''r'' @ str_nat j \<notin> set (nodes t) \<and>
      (\<forall>i<rnum t. ''r'' @ str_nat i \<noteq> ''r'' @ str_nat j) \<and>
      nodes t' = nodes t @ [''r'' @ str_nat j]) \<and>
   (distinct (nodes t) \<longrightarrow>
      distinct (nodes (snd (addHost t n))) \<and>
      distinct (nodes (snd (addSwitch t n))) \<and>
      distinct (nodes (snd (addRouter t n))))"
proof (intro conjI impI)
  assume "nm \<in> set (nodes t)"
  then show "addHost t (Some nm) = (Inl DuplicateNodeError, t)"
    and "addSwitch t (Some nm) = (Inl DuplicateNodeError, t)"
    and "addRouter t (Some nm) = (Inl DuplicateNodeError, t)"
    by (simp_all add: addHost_def addSwitch_def addRouter_def addTyped_named_dup)
next
  show "\<exists>j t'. addHost t None = (Inr (''h'' @ str_nat j), t') \<and> hnum t \<le> j \<and> hnum t' = j + 1 \<and>
      ''h'' @ str_nat j \<notin> set (nodes t) \<and>
      (\<forall>i<hnum t. ''h'' @ str_nat i \<noteq> ''h'' @ str_nat j) \<and>
      nodes t' = nodes t @ [''h'' @ str_nat j]"
    by (rule addHost_auto)
  show "\<exists>j t'. addSwitch t None = (Inr (''s'' @ str_nat j), t') \<and> snum t \<le> j \<and> snum t' = j + 1 \<and>
      ''s'' @ str_nat j \<notin> set (nodes t) \<and>
      (\<forall>i<snum t. ''s'' @ str_nat i \<noteq> ''s'' @ str_nat j) \<and>
      nodes t' = nodes t @ [''s'' @ str_nat j]"
    by (rule addSwitch_auto)
  show "\<exists>j t'. addRouter t None = (Inr (''r'' @ str_nat j), t') \<and> rnum t \<le> j \<and> rnum t' = j + 1 \<and>
      ''r'' @ str_nat j \<notin> set (nodes t) \<and>
      (\<forall>i<rnum t. ''r'' @ str_nat i \<noteq> ''r'' @ str_nat j) \<and>
      nodes t' = nodes t @ [''r'' @ str_nat j]"
    by (rule addRouter_auto)
next
  assume d: "distinct (nodes t)"
  show "distinct (nodes (snd (addHost t n)))"
    unfolding addHost_def by (rule addTyped_distinct) (simp_all add: d)
  show "distinct (nodes (snd (addSwitch t n)))"
    unfolding addSwitch_def by (rule addTyped_distinct) (simp_all add: d)
  show "distinct (nodes (snd (addRouter t n)))"
    unfolding addRouter_def by (rule addTyped_distinct) (simp_all add: d)
qed

text \<open>The theorem at the example with the nodes \<open>h0\<close>, \<open>h1\<close> and \<open>s0\<close>.\<close>

theorem node_names_unique_witness:
  "''h0'' \<in> set (nodes example_nodes)
   \<and> addHost example_nodes (Some ''h0'') = (Inl DuplicateNodeError, example_nodes)
   \<and> addSwitch example_nodes (Some ''h0'') = (Inl DuplicateNodeError, example_nodes)
   \<and> addRouter example_nodes (Some ''h0'') = (Inl DuplicateNodeError, example_nodes)
   \<and> hnum example_nodes = 2 \<and> fst (addHost example_nodes None) = Inr ''h2''
   \<and> ''h0'' \<noteq> ''h2'' \<and> ''h1'' \<noteq> ''h2''
   \<and> distinct (nodes example_nodes)
   \<and> distinct (nodes (snd (addHost example_nodes None)))
   \<and> distinct (nodes (snd (addSwitch example_nodes None)))
   \<and> distinct (nodes (snd (addRouter example_nodes None)))"
proof -
  have h: "''h0'' \<in> set (nodes example_nodes) \<and> distinct (nodes example_nodes)
     \<and> hnum example_nodes = 2 \<and> fst (addHost example_nodes None) = Inr ''h2''"
    by code_simp
  show ?thesis
    using node_names_unique[of "''h0''" example_nodes None] h by simp
qed

section \<open>Union\<close>

text \<open>The graph library keeps the endpoints of every edge among the nodes.\<close>

definition edges_in_nodes :: "'o graph \<Rightarrow> bool" where
  "edges_in_nodes g \<longleftrightarrow> list_all (\<lambda>(u, v). has_node g u \<and> has_node g v) (graph_edges g)"

text \<open>A second topology, named \<open>other\<close>: a router \<open>r0\<close> linked to a host \<open>server\<close>.\<close>

definition example_other :: topology where
  "example_other =
     snd (addLink example_util
       (snd (addHost (snd (addRouter (Topology ''other'' None True) None)) (Some ''server'')))
       ''r0'' ''server'' ''1gbps'' ''1ms'')"

lemma edges_in_nodes_empty: "edges_in_nodes g \<Longrightarrow> gnodes g = [] \<Longrightarrow> gedges g = []"
  by (cases "gedges g") (auto simp: edges_in_nodes_def graph_edges_def has_node_def graph_nodes_def)

text \<open>
  Claim C7: for two topologies with no node name in common, \<open>union\<close> with
  \<open>rename=False\<close> returns a new topology and leaves the receiver and \<open>other\<close> as they
  were; the new topology has as many nodes and as many links as the two together, and
  its nodes and links are exactly theirs. (The graphs are graphs of the library: the
  endpoints of their edges are nodes.)
\<close>

theorem union_disjoint:
  "set (nodes t) \<inter> set (nodes other) = {} \<and> edges_in_nodes (nxgraph t)
     \<and> edges_in_nodes (nxgraph other) \<longrightarrow>
   (\<exists>r. union_topology t other False = (Inr r, t, other) \<and>
      length (nodes r) = length (nodes t) + length (nodes other) \<and>
      length (links r) = length (links t) + length (links other) \<and>
      set (nodes r) = set (nodes t) \<union> set (nodes other) \<and>
      set (links r) = set (links t) \<union> set (links other))"
proof
  assume h: "set (nodes t) \<inter> set (nodes other) = {} \<and> edges_in_nodes (nxgraph t)
     \<and> edges_in_nodes (nxgraph other)"
  let ?g = "\<lparr>gname = gname (nxgraph other), gnodes = gnodes (nxgraph t) @ gnodes (nxgraph other),
            gedges = gedges (nxgraph t) @ gedges (nxgraph other)\<rparr> :: node graph"
  let ?nm = "topo_name t @ ''_'' @ topo_name other"
  have u: "union_topology t other False = (Inr (Topology ?nm (Some ?g) True), t, other)"
    using h by (simp add: union_topology_def graph_union_def nodes_graph_nodes)
  show "\<exists>r. union_topology t other False = (Inr r, t, other) \<and>
      length (nodes r) = length (nodes t) + length (nodes other) \<and>
      length (links r) = length (links t) + length (links other) \<and>
      set (nodes r) = set (nodes t) \<union> set (nodes other) \<and>
      set (links r) = set (links t) \<union> set (links other)"
  proof (cases "gnodes ?g = []")
    case True
    then have "gnodes (nxgraph t) = []" and "gnodes (nxgraph other) = []" by simp_all
    with h have "gedges (nxgraph t) = []" and "gedges (nxgraph other) = []"
      using edges_in_nodes_empty by blast+
    with True u show ?thesis
      by (simp add: Topology_def Graph_def nodes_graph_nodes graph_nodes_def links_def graph_edges_def)
  next
    case False
    with u show ?thesis
      by (simp add: Topology_def nodes_graph_nodes graph_nodes_def links_def graph_edges_def
          image_Un)
  qed
qed

text \<open>The theorem at the two example topologies.\<close>

theorem union_disjoint_witness:
  "set (nodes example_topology) \<inter> set (nodes example_other) = {}
   \<and> edges_in_nodes (nxgraph example_topology) \<and> edges_in_nodes (nxgraph example_other)
   \<and> snd (union_topology example_topology example_other False) = (example_topology, example_other)
   \<and> map_sum id nodes (fst (union_topology example_topology example_other False)) =
       Inr [''h0'', ''h1'', ''s0'', ''r0'', ''server'']
   \<and> map_sum id links (fst (union_topology example_topology example_other False)) =
       Inr [(''h0'', ''s0''), (''h1'', ''s0''), (''r0'', ''server'')]"
proof -
  have h: "set (nodes example_topology) \<inter> set (nodes example_other) = {}
   \<and> edges_in_nodes (nxgraph example_topology) \<and> edges_in_nodes (nxgraph example_other)"
    by code_simp
  have e: "map_sum id nodes (fst (union_topology example_topology example_other False)) =
       Inr [''h0'', ''h1'', ''s0'', ''r0'', ''server'']
   \<and> map_sum id links (fst (union_topology example_topology example_other False)) =
       Inr [(''h0'', ''s0''), (''h1'', ''s0''), (''r0'', ''server'')]"
    by code_simp
  show ?thesis
    using union_disjoint[of example_topology example_other] h e by auto
qed

section \<open>Automatic MAC addresses\<close>

subsection \<open>The address text determines the counter\<close>
















subsection \<open>One link\<close>



lemma map_of_map_nodeobj:
  "map_of (gnodes (map_nodeobj g n f)) m =
   map_option (\<lambda>a. if m = n then a\<lparr>nodeobj := f (nodeobj a)\<rparr> else a) (map_of (gnodes g) m)"
proof -
  have "map_of (map (\<lambda>(k, a). if k = n then (k, a\<lparr>nodeobj := f (nodeobj a)\<rparr>) else (k, a)) xs) m =
        map_option (\<lambda>a. if m = n then a\<lparr>nodeobj := f (nodeobj a)\<rparr> else a) (map_of xs m)" for xs
    by (induction xs) auto
  then show ?thesis by (simp add: map_nodeobj_def)
qed


lemma graph_node_gnodes: "gnodes g = gnodes g' \<Longrightarrow> graph_node g n = graph_node g' n"
  by (simp add: graph_node_def)

lemma gnodes_store_link [simp]: "gnodes (store_link U g a b c d i1 i2) = gnodes g"
  by (simp add: store_link_def Let_def)

lemma graph_nodes_store_link [simp]:
  "graph_nodes (store_link U g a b c d i1 i2) = graph_nodes g"
  by (simp add: graph_nodes_def)

lemma has_edge_add_edge: "has_edge (add_edge g u v) u v"
  by (auto simp: has_edge_def add_edge_def find_edge_def find_None_iff same_edge_def)

lemma graph_edge_store_link:
  "\<exists>ld. graph_edge (store_link U g a b c d i1 i2) a b = Inr ld \<and>
        map_of ld b = Some (AStr i2) \<and> (a \<noteq> b \<longrightarrow> map_of ld a = Some (AStr i1))"
proof -
  obtain k d0 where f: "find_edge (add_edge g a b) a b = Some (k, d0)"
    using has_edge_add_edge[of g a b] by (auto simp: has_edge_def)
  then have "same_edge a b k" by (rule find_edge_key)
  with f show ?thesis
    by (simp add: store_link_def Let_def graph_edge_def find_edge_set_edge_attr update_conv')
qed

lemma getInterface_addInterface:
  "getInterface (snd (addInterface n m None None)) (fst (addInterface n m None None)) =
   Inr (Interface (''eth'' @ str_nat (ifnum n)) m None None)"
  by (simp add: addInterface_def getInterface_def Let_def update_conv')



subsection \<open>A sequence of links\<close>





section \<open>Address assignment\<close>

subsection \<open>The endpoints that are numbered\<close>

text \<open>The interface name that the link between \<open>u\<close> and \<open>v\<close> stores for its endpoint
  \<open>n\<close>: \<open>getLink(u, v)[n]\<close>.\<close>

definition endpoint_ifname :: "topology \<Rightarrow> string \<Rightarrow> string \<Rightarrow> string \<Rightarrow> string option" where
  "endpoint_ifname t u v n =
     (case getLink t u v of
        Inl e \<Rightarrow> None
      | Inr linkdata \<Rightarrow> (case map_of linkdata n of Some (AStr ifname) \<Rightarrow> Some ifname | _ \<Rightarrow> None))"

definition has_interface :: "topology \<Rightarrow> string \<Rightarrow> string \<Rightarrow> bool" where
  "has_interface t n i = (case getInterfaceAddresses t n i of Inl e \<Rightarrow> False | Inr x \<Rightarrow> True)"

text \<open>
  The claims' order of visits. The endpoints among \<open>ns\<close> of the link between \<open>u\<close> and \<open>v\<close>
  that are nodes to number, each with the interface the link stores for it; the same
  for the two endpoints of every link of a list, in the order of the list; and, for a
  topology, for its links in sorted order, with the hosts and routers as the nodes to
  number.
\<close>

definition node_targets ::
  "string list \<Rightarrow> topology \<Rightarrow> string \<Rightarrow> string \<Rightarrow> string list \<Rightarrow> (string \<times> string) list" where
  "node_targets ntn t u v ns =
     concat (map (\<lambda>n. if n \<in> set ntn
                        then (case endpoint_ifname t u v n of Some i \<Rightarrow> [(n, i)] | None \<Rightarrow> [])
                        else []) ns)"

definition link_targets ::
  "string list \<Rightarrow> topology \<Rightarrow> (string \<times> string) list \<Rightarrow> (string \<times> string) list" where
  "link_targets ntn t ls = concat (map (\<lambda>(u, v). node_targets ntn t u v [u, v]) ls)"


text \<open>Every endpoint to number of the links \<open>ls\<close> has an interface name stored in its
  link, and the node has that interface.\<close>

definition endpoints_ok :: "string list \<Rightarrow> topology \<Rightarrow> (string \<times> string) list \<Rightarrow> bool" where
  "endpoints_ok ntn t ls =
     list_all (\<lambda>(u, v). list_all (\<lambda>n. n \<in> set ntn \<longrightarrow>
        (case endpoint_ifname t u v n of Some i \<Rightarrow> has_interface t n i | None \<Rightarrow> False)) [u, v]) ls"

definition links_ok :: "topology \<Rightarrow> bool" where
  "links_ok t = endpoints_ok (hosts t @ routers t) t (links t)"

text \<open>One assignment: the interface \<open>i\<close> of the node \<open>n\<close> gets the address \<open>a\<close> and the
  netmask \<open>m\<close>; and the assignments for a list of interfaces, with consecutive addresses
  from \<open>cur\<close>.\<close>

definition assign_address :: "topology \<Rightarrow> string \<Rightarrow> string \<Rightarrow> nat \<Rightarrow> nat \<Rightarrow> topology" where
  "assign_address t n i a m =
     (case getNode t n of
        Inl e \<Rightarrow> t
      | Inr nd \<Rightarrow>
          (case getInterface (nodeobj nd) i of
             Inl e \<Rightarrow> t
           | Inr intf \<Rightarrow>
               put_interface t n i
                 (set_netmask (Some (IPv4Address m)) (set_ipaddr (Some (IPv4Address a)) intf))))"

fun assign_all :: "nat \<Rightarrow> nat \<Rightarrow> topology \<Rightarrow> (string \<times> string) list \<Rightarrow> topology" where
  "assign_all m cur t [] = t"
| "assign_all m cur t ((n, i) # T) = assign_all m (cur + 1) (assign_address t n i cur m) T"


subsection \<open>One assignment\<close>

lemma graph_node_map_nodeobj_sum:
  "graph_node (map_nodeobj g n f) m =
   map_sum id (\<lambda>a. if m = n then a\<lparr>nodeobj := f (nodeobj a)\<rparr> else a) (graph_node g m)"
  by (auto simp: graph_node_def map_of_map_nodeobj split: option.splits)

lemma getLink_put_interface [simp]: "getLink (put_interface t n i x) u v = getLink t u v"
  by (simp add: getLink_def getEdge_def graph_edge_def find_edge_def put_interface_def)

lemma getLink_assign_address [simp]: "getLink (assign_address t n i a m) u v = getLink t u v"
  by (simp add: assign_address_def split: sum.splits)

lemma endpoint_ifname_assign_address [simp]:
  "endpoint_ifname (assign_address t n i a m) u v x = endpoint_ifname t u v x"
  by (simp add: endpoint_ifname_def)

lemma getNode_put_interface:
  "getNode (put_interface t n i x) n' =
   map_sum id (\<lambda>a. if n' = n
      then a\<lparr>nodeobj := (nodeobj a)\<lparr>interfaces := AList.update i x (interfaces (nodeobj a))\<rparr>\<rparr>
      else a) (getNode t n')"
  by (simp add: getNode_def put_interface_def graph_node_map_nodeobj_sum)

lemma getNode_assign_address_other:
  "n' \<noteq> n \<Longrightarrow> getNode (assign_address t n i a m) n' = getNode t n'"
  by (cases "getNode t n'")
     (simp_all add: assign_address_def getNode_put_interface split: sum.splits)

lemma getInterfaceAddresses_assign_address_same:
  "getInterfaceAddresses t n i = Inr (mac, ip, nm) \<Longrightarrow>
   getInterfaceAddresses (assign_address t n i a m) n i = Inr (mac, IPv4Address a, IPv4Address m)"
  by (auto simp: getInterfaceAddresses_def assign_address_def getNode_put_interface
      getInterface_def update_conv' set_netmask_def set_ipaddr_def split: sum.splits option.splits)

lemma getInterfaceAddresses_assign_address_other:
  "(n', i') \<noteq> (n, i) \<Longrightarrow>
   getInterfaceAddresses (assign_address t n i a m) n' i' = getInterfaceAddresses t n' i'"
proof (cases "n' = n")
  case False
  then show ?thesis
    by (simp add: getInterfaceAddresses_def getNode_assign_address_other)
next
  case True
  assume "(n', i') \<noteq> (n, i)"
  with True have ne: "i' \<noteq> i" by simp
  show ?thesis
  proof (cases "getNode t n")
    case (Inl e)
    then show ?thesis by (simp add: assign_address_def)
  next
    case (Inr nd)
    show ?thesis
    proof (cases "getInterface (nodeobj nd) i")
      case (Inl e)
      with Inr show ?thesis by (simp add: assign_address_def)
    next
      case (Inr intf)
      with \<open>getNode t n = Inr nd\<close> True ne show ?thesis
        by (simp add: getInterfaceAddresses_def assign_address_def getNode_put_interface
            getInterface_def update_conv')
    qed
  qed
qed

lemma has_interface_assign_address [simp]:
  "has_interface (assign_address t n i a m) n' i' = has_interface t n' i'"
proof (cases "(n', i') = (n, i)")
  case True
  show ?thesis
  proof (cases "getInterfaceAddresses t n i")
    case (Inl e)
    then have "assign_address t n i a m = t"
      by (auto simp: getInterfaceAddresses_def assign_address_def split: sum.splits)
    then show ?thesis by simp
  next
    case (Inr x)
    obtain mac ip nm where "x = (mac, ip, nm)" by (cases x) auto
    with Inr True show ?thesis
      using getInterfaceAddresses_assign_address_same[of t n i mac ip nm a m]
      by (simp add: has_interface_def)
  qed
next
  case False
  then show ?thesis
    by (simp add: has_interface_def getInterfaceAddresses_assign_address_other)
qed

subsection \<open>The loops\<close>




lemma endpoint_ifname_assign_address_fun:
  "endpoint_ifname (assign_address t n i a m) = endpoint_ifname t"
  by (intro ext) simp

lemma node_targets_assign_address [simp]:
  "node_targets ntn (assign_address t n i a m) u v ns = node_targets ntn t u v ns"
  unfolding node_targets_def endpoint_ifname_assign_address_fun by (rule refl)




lemma getLink_assign_all [simp]: "getLink (assign_all m cur t T) u v = getLink t u v"
  by (induction T arbitrary: t cur) auto

lemma endpoint_ifname_assign_all [simp]:
  "endpoint_ifname (assign_all m cur t T) u v n = endpoint_ifname t u v n"
  by (simp add: endpoint_ifname_def)

lemma has_interface_assign_all [simp]:
  "has_interface (assign_all m cur t T) n i = has_interface t n i"
  by (induction T arbitrary: t cur) auto

lemma endpoint_ifname_assign_all_fun:
  "endpoint_ifname (assign_all m cur t T) = endpoint_ifname t"
  by (intro ext) simp

lemma has_interface_assign_all_fun:
  "has_interface (assign_all m cur t T) = has_interface t"
  by (intro ext) simp

lemma link_targets_assign_all [simp]:
  "link_targets ntn (assign_all m cur t T) ls = link_targets ntn t ls"
  unfolding link_targets_def node_targets_def endpoint_ifname_assign_all_fun by (rule refl)

lemma endpoints_ok_assign_all [simp]:
  "endpoints_ok ntn (assign_all m cur t T) ls = endpoints_ok ntn t ls"
  unfolding endpoints_ok_def endpoint_ifname_assign_all_fun has_interface_assign_all_fun
  by (rule refl)



subsection \<open>The topology after the assignments\<close>




subsection \<open>assignIPAddresses\<close>










subsection \<open>The order of the assignments\<close>









section \<open>The topologies that the construction operations build\<close>

text \<open>
  The hypotheses of the theorems on \<open>union\<close> and \<open>assignIPAddresses\<close> hold for every
  topology made from an empty one by \<open>addHost\<close>, \<open>addSwitch\<close>, \<open>addRouter\<close> and \<open>addLink\<close>:
  the endpoints of every link are nodes, the link stores an interface name for each of
  them, and the node has an interface of that name.
\<close>

definition graph_ifname :: "'o graph \<Rightarrow> string \<Rightarrow> string \<Rightarrow> string \<Rightarrow> string option" where
  "graph_ifname g u v n =
     (case graph_edge g u v of
        Inl e \<Rightarrow> None
      | Inr linkdata \<Rightarrow> (case map_of linkdata n of Some (AStr ifname) \<Rightarrow> Some ifname | _ \<Rightarrow> None))"

definition graph_has_if :: "node graph \<Rightarrow> string \<Rightarrow> string \<Rightarrow> bool" where
  "graph_has_if g n i =
     (case graph_node g n of Inl e \<Rightarrow> False | Inr a \<Rightarrow> map_of (interfaces (nodeobj a)) i \<noteq> None)"

definition graph_wf :: "node graph \<Rightarrow> bool" where
  "graph_wf g \<longleftrightarrow>
     (\<forall>u v n. (u, v) \<in> set (graph_edges g) \<and> (n = u \<or> n = v) \<longrightarrow>
        has_node g n \<and> (\<exists>i. graph_ifname g u v n = Some i \<and> graph_has_if g n i))"

lemma endpoint_ifname_graph: "endpoint_ifname t u v n = graph_ifname (nxgraph t) u v n"
  by (simp add: endpoint_ifname_def graph_ifname_def getLink_def getEdge_def)

lemma has_interface_graph: "has_interface t n i = graph_has_if (nxgraph t) n i"
  by (auto simp: has_interface_def graph_has_if_def getInterfaceAddresses_def getNode_def
      getInterface_def split: sum.splits option.splits)

lemma graph_wf_links_ok: "graph_wf (nxgraph t) \<Longrightarrow> links_ok t"
  unfolding links_ok_def endpoints_ok_def list_all_iff links_def graph_wf_def
  by (fastforce simp: endpoint_ifname_graph has_interface_graph)

lemma graph_wf_edges_in_nodes: "graph_wf g \<Longrightarrow> edges_in_nodes g"
  unfolding edges_in_nodes_def list_all_iff graph_wf_def by fastforce

lemma graph_wf_Graph: "graph_wf (Graph nm)"
  by (simp add: graph_wf_def Graph_def graph_edges_def)

lemma graph_node_add_node: "has_node g n \<Longrightarrow> graph_node (add_node g nm a) n = graph_node g n"
proof -
  assume "has_node g n"
  then obtain x where "graph_node g n = Inr x" using has_node_graph_node by blast
  then have "map_of (gnodes g) n = Some x"
    by (auto simp: graph_node_def split: option.splits)
  then show ?thesis by (simp add: graph_node_def add_node_def)
qed

lemma graph_edge_gedges: "gedges g = gedges g' \<Longrightarrow> graph_edge g u v = graph_edge g' u v"
  by (simp add: graph_edge_def find_edge_def)

lemma graph_ifname_gedges: "gedges g = gedges g' \<Longrightarrow> graph_ifname g u v n = graph_ifname g' u v n"
  by (simp add: graph_ifname_def graph_edge_gedges[of g g'])

lemma graph_wf_add_node: "graph_wf g \<Longrightarrow> graph_wf (add_node g nm a)"
proof -
  assume wf: "graph_wf g"
  have ge: "gedges (add_node g nm a) = gedges g" by (simp add: add_node_def)
  show ?thesis
    unfolding graph_wf_def
  proof (intro allI impI)
    fix u v n
    assume "(u, v) \<in> set (graph_edges (add_node g nm a)) \<and> (n = u \<or> n = v)"
    then have "(u, v) \<in> set (graph_edges g) \<and> (n = u \<or> n = v)"
      by (simp add: graph_edges_def ge)
    with wf obtain i where hn: "has_node g n" and fi: "graph_ifname g u v n = Some i"
      and hi: "graph_has_if g n i"
      unfolding graph_wf_def by blast
    have "has_node (add_node g nm a) n" using hn by (simp add: has_node_def)
    moreover have "graph_ifname (add_node g nm a) u v n = Some i"
      using fi graph_ifname_gedges[OF ge] by simp
    moreover have "graph_has_if (add_node g nm a) n i"
      using hi hn by (simp add: graph_has_if_def graph_node_add_node)
    ultimately show "has_node (add_node g nm a) n \<and>
        (\<exists>i. graph_ifname (add_node g nm a) u v n = Some i \<and> graph_has_if (add_node g nm a) n i)"
      by blast
  qed
qed

text \<open>A change of a node object that keeps the interfaces it has.\<close>

definition keeps_interfaces :: "(node \<Rightarrow> node) \<Rightarrow> bool" where
  "keeps_interfaces f \<longleftrightarrow>
     (\<forall>obj i. map_of (interfaces obj) i \<noteq> None \<longrightarrow> map_of (interfaces (f obj)) i \<noteq> None)"

lemma keeps_interfaces_addInterface:
  "keeps_interfaces (\<lambda>obj. snd (addInterface obj m None None))"
  by (simp add: keeps_interfaces_def addInterface_def Let_def update_conv')

lemma graph_has_if_map_nodeobj:
  "keeps_interfaces f \<Longrightarrow> graph_has_if g m i \<Longrightarrow> graph_has_if (map_nodeobj g n f) m i"
  by (cases "graph_node g m")
     (auto simp: graph_has_if_def graph_node_map_nodeobj_sum keeps_interfaces_def)

lemma graph_wf_map_nodeobj:
  assumes "keeps_interfaces f" and "graph_wf g"
  shows "graph_wf (map_nodeobj g n f)"
  unfolding graph_wf_def
proof (intro allI impI)
  fix u v x
  assume "(u, v) \<in> set (graph_edges (map_nodeobj g n f)) \<and> (x = u \<or> x = v)"
  then have "(u, v) \<in> set (graph_edges g) \<and> (x = u \<or> x = v)" by simp
  with assms(2) obtain i where hn: "has_node g x" and fi: "graph_ifname g u v x = Some i"
    and hi: "graph_has_if g x i"
    unfolding graph_wf_def by blast
  have "graph_ifname (map_nodeobj g n f) u v x = Some i"
    using fi graph_ifname_gedges[of "map_nodeobj g n f" g] by simp
  moreover have "graph_has_if (map_nodeobj g n f) x i"
    using assms(1) hi by (rule graph_has_if_map_nodeobj)
  ultimately show "has_node (map_nodeobj g n f) x \<and>
      (\<exists>i. graph_ifname (map_nodeobj g n f) u v x = Some i \<and> graph_has_if (map_nodeobj g n f) x i)"
    using hn by auto
qed

lemma same_edge_swap: "same_edge u v k = same_edge v u k"
  by (auto simp: same_edge_def)

lemma find_edge_swap: "find_edge g u v = find_edge g v u"
  by (simp add: find_edge_def same_edge_swap[of u v])

lemma graph_edge_swap: "graph_edge g u v = graph_edge g v u"
  by (simp add: graph_edge_def find_edge_swap[of g u v])

lemma same_edge_trans:
  "same_edge a b k \<Longrightarrow> same_edge u v k \<Longrightarrow> same_edge a b (u, v)"
  by (auto simp: same_edge_def)

lemma find_append_not: "\<not> P x \<Longrightarrow> find P (xs @ [x]) = find P xs"
  by (induction xs) auto

lemma find_edge_add_edge_other:
  "\<not> same_edge a b (u, v) \<Longrightarrow> find_edge (add_edge g a b) u v = find_edge g u v"
proof -
  assume n: "\<not> same_edge a b (u, v)"
  then have "\<not> (\<lambda>(k, d). same_edge u v k) ((a, b), [])"
    by (auto simp: same_edge_def)
  then show ?thesis
    by (simp add: add_edge_def find_edge_def find_append_not)
qed

lemma graph_edge_store_link_other:
  assumes "\<not> same_edge a b (u, v)"
  shows "graph_edge (store_link U g a b c d i1 i2) u v = graph_edge g u v"
proof (cases "find_edge g u v")
  case None
  then have "find_edge (add_edge g a b) u v = None"
    using find_edge_add_edge_other[OF assms, of g] by simp
  with None show ?thesis
    by (simp add: store_link_def Let_def graph_edge_def find_edge_set_edge_attr)
next
  case (Some x)
  obtain k d0 where x: "x = (k, d0)" by (cases x)
  with Some have f: "find_edge (add_edge g a b) u v = Some (k, d0)"
    using find_edge_add_edge_other[OF assms, of g] by simp
  from Some x have "same_edge u v k" using find_edge_key by blast
  with assms have "\<not> same_edge a b k" using same_edge_trans by blast
  with f Some x show ?thesis
    by (simp add: store_link_def Let_def graph_edge_def find_edge_set_edge_attr)
qed

lemma graph_has_if_gnodes: "gnodes g = gnodes g' \<Longrightarrow> graph_has_if g n i = graph_has_if g' n i"
  by (simp add: graph_has_if_def graph_node_def)

lemma has_node_gnodes: "gnodes g = gnodes g' \<Longrightarrow> has_node g n = has_node g' n"
  by (simp add: has_node_def graph_nodes_def)

lemma graph_edges_add_edge:
  "set (graph_edges (add_edge g a b)) \<subseteq> insert (a, b) (set (graph_edges g))"
  by (auto simp: add_edge_def graph_edges_def)

lemma graph_edges_store_link_new:
  "set (graph_edges (store_link U g a b c d i1 i2)) \<subseteq> insert (a, b) (set (graph_edges g))"
proof -
  have "graph_edges (store_link U g a b c d i1 i2) = graph_edges (add_edge g a b)"
    by (simp add: store_link_def Let_def)
  then show ?thesis using graph_edges_add_edge[of g a b] by simp
qed

lemma graph_wf_store_link:
  assumes wf: "graph_wf g" and na: "has_node g a" and nb: "has_node g b"
    and ia: "graph_has_if g a i1" and ib: "graph_has_if g b i2"
  shows "graph_wf (store_link U g a b c d i1 i2)"
  unfolding graph_wf_def
proof (intro allI impI)
  let ?g = "store_link U g a b c d i1 i2"
  have gn: "gnodes ?g = gnodes g" by simp
  fix u v n
  assume h: "(u, v) \<in> set (graph_edges ?g) \<and> (n = u \<or> n = v)"
  show "has_node ?g n \<and> (\<exists>i. graph_ifname ?g u v n = Some i \<and> graph_has_if ?g n i)"
  proof (cases "same_edge a b (u, v)")
    case True
    obtain ld where ld: "graph_edge ?g a b = Inr ld" and lb: "map_of ld b = Some (AStr i2)"
      and la: "a \<noteq> b \<longrightarrow> map_of ld a = Some (AStr i1)"
      using graph_edge_store_link[of U g a b c d i1 i2] by blast
    from True have "graph_edge ?g u v = Inr ld"
      using ld graph_edge_swap[of ?g a b] by (auto simp: same_edge_def)
    moreover from True h have nab: "n = a \<or> n = b" by (auto simp: same_edge_def)
    ultimately have "graph_ifname ?g u v n = Some (if n = b then i2 else i1)"
      using la lb by (auto simp: graph_ifname_def)
    moreover have "graph_has_if ?g n (if n = b then i2 else i1)"
      using nab ia ib graph_has_if_gnodes[OF gn] by auto
    moreover have "has_node ?g n"
      using nab na nb has_node_gnodes[OF gn] by auto
    ultimately show ?thesis by blast
  next
    case False
    then have "(u, v) \<noteq> (a, b)" by (auto simp: same_edge_def)
    with h have "(u, v) \<in> set (graph_edges g)"
      using graph_edges_store_link_new[of U g a b c d i1 i2] by auto
    with wf h obtain i where hn: "has_node g n" and fi: "graph_ifname g u v n = Some i"
      and hi: "graph_has_if g n i"
      unfolding graph_wf_def by blast
    have "graph_ifname ?g u v n = Some i"
      using fi graph_edge_store_link_other[OF False, of U g c d i1 i2]
      by (simp add: graph_ifname_def)
    then show ?thesis
      using hn hi has_node_gnodes[OF gn] graph_has_if_gnodes[OF gn] by auto
  qed
qed

lemma graph_has_if_addInterface:
  assumes "graph_node g n = Inr a"
  shows "graph_has_if (map_nodeobj g n (\<lambda>obj. snd (addInterface obj m None None))) n
           (fst (addInterface (nodeobj a) m None None))"
  using assms getInterface_addInterface[of "nodeobj a" m]
  by (simp add: graph_has_if_def graph_node_map_nodeobj_sum getInterface_def split: option.splits)

lemma graph_wf_addLink:
  assumes "graph_wf (nxgraph t)"
  shows "graph_wf (nxgraph (snd (addLink U t a b c d)))"
proof (cases "has_node (nxgraph t) a \<and> has_node (nxgraph t) b")
  case False
  then show ?thesis using assms addLink_unknown[of t a b U c d] by auto
next
  case True
  define m1 where "m1 = fst (fst (alloc_macs t))"
  define m2 where "m2 = snd (fst (alloc_macs t))"
  define ga where "ga = map_nodeobj (nxgraph t) a (\<lambda>obj. snd (addInterface obj m1 None None))"
  define gb where "gb = map_nodeobj ga b (\<lambda>obj. snd (addInterface obj m2 None None))"
  from True obtain a1 b1 where a1: "graph_node (nxgraph t) a = Inr a1"
    and b1: "graph_node ga b = Inr b1"
    and e: "addLink U t a b c d =
       (Inr (), (snd (alloc_macs t))\<lparr>nxgraph :=
          store_link U gb a b c d
            (fst (addInterface (nodeobj a1) m1 None None))
            (fst (addInterface (nodeobj b1) m2 None None))\<rparr>)"
    using addLink_eq[of t a b U c d] unfolding m1_def m2_def ga_def gb_def by blast
  have wa: "graph_wf ga"
    unfolding ga_def using keeps_interfaces_addInterface assms by (rule graph_wf_map_nodeobj)
  have wb: "graph_wf gb"
    unfolding gb_def using keeps_interfaces_addInterface wa by (rule graph_wf_map_nodeobj)
  have na: "has_node gb a" and nb: "has_node gb b"
    using True by (simp_all add: gb_def ga_def)
  have "graph_has_if ga a (fst (addInterface (nodeobj a1) m1 None None))"
    unfolding ga_def using a1 by (rule graph_has_if_addInterface)
  then have ia: "graph_has_if gb a (fst (addInterface (nodeobj a1) m1 None None))"
    unfolding gb_def using keeps_interfaces_addInterface graph_has_if_map_nodeobj by blast
  have ib: "graph_has_if gb b (fst (addInterface (nodeobj b1) m2 None None))"
    unfolding gb_def using b1 by (rule graph_has_if_addInterface)
  show ?thesis
    using graph_wf_store_link[OF wb na nb ia ib, of U c d] e by simp
qed

lemma graph_wf_addTyped:
  assumes "\<And>k. nxgraph (put k t) = nxgraph t" and "graph_wf (nxgraph t)"
  shows "graph_wf (nxgraph (snd (addTyped pfx get put cl t n)))"
proof (cases n)
  case None
  then show ?thesis
    using addTyped_auto[of put t get pfx cl, OF assms(1)] assms(2)
    by (auto simp: graph_wf_add_node)
next
  case (Some nm)
  then show ?thesis using assms(2)
    by (cases "nm \<in> set (nodes t)")
       (auto simp: addTyped_named_dup addTyped_named_new graph_wf_add_node)
qed

text \<open>The empty topology is well formed, and the four operations keep a topology well
  formed; a well-formed topology satisfies the hypotheses used above.\<close>

lemma construction_well_formed:
  "graph_wf (nxgraph (Topology nm None am))"
  "graph_wf (nxgraph t) \<Longrightarrow> graph_wf (nxgraph (snd (addHost t n)))"
  "graph_wf (nxgraph t) \<Longrightarrow> graph_wf (nxgraph (snd (addSwitch t n)))"
  "graph_wf (nxgraph t) \<Longrightarrow> graph_wf (nxgraph (snd (addRouter t n)))"
  "graph_wf (nxgraph t) \<Longrightarrow> graph_wf (nxgraph (snd (addLink U t a b c d)))"
  "graph_wf (nxgraph t) \<Longrightarrow> links_ok t \<and> edges_in_nodes (nxgraph t)"
proof -
  show "graph_wf (nxgraph (Topology nm None am))"
    by (simp add: Topology_def graph_wf_Graph)
  show "graph_wf (nxgraph t) \<Longrightarrow> graph_wf (nxgraph (snd (addHost t n)))"
    unfolding addHost_def by (rule graph_wf_addTyped) simp_all
  show "graph_wf (nxgraph t) \<Longrightarrow> graph_wf (nxgraph (snd (addSwitch t n)))"
    unfolding addSwitch_def by (rule graph_wf_addTyped) simp_all
  show "graph_wf (nxgraph t) \<Longrightarrow> graph_wf (nxgraph (snd (addRouter t n)))"
    unfolding addRouter_def by (rule graph_wf_addTyped) simp_all
  show "graph_wf (nxgraph t) \<Longrightarrow> graph_wf (nxgraph (snd (addLink U t a b c d)))"
    by (rule graph_wf_addLink)
  show "graph_wf (nxgraph t) \<Longrightarrow> links_ok t \<and> edges_in_nodes (nxgraph t)"
    using graph_wf_links_ok graph_wf_edges_in_nodes by blast
qed

subsection \<open>Interface names on new nodes\<close>

text \<open>On a node whose interface names all come from smaller values of its counter, as
  on every node created without interfaces, \<open>addInterface\<close> does return a new name.\<close>

definition eth_names_below :: "node \<Rightarrow> bool" where
  "eth_names_below n \<longleftrightarrow>
     (\<forall>k\<in>fst ` set (interfaces n). \<exists>j<ifnum n. k = ''eth'' @ str_nat j)"

lemma eth_names_below_new: "eth_names_below \<lparr>cls = c, ifnum = 0, interfaces = []\<rparr>"
  by (simp add: eth_names_below_def)

lemma addInterface_fresh:
  assumes "eth_names_below n"
  shows "fst (addInterface n eth ip nmask) \<notin> fst ` set (interfaces n)"
    and "eth_names_below (snd (addInterface n eth ip nmask))"
proof -
  show "fst (addInterface n eth ip nmask) \<notin> fst ` set (interfaces n)"
  proof
    assume "fst (addInterface n eth ip nmask) \<in> fst ` set (interfaces n)"
    then have "''eth'' @ str_nat (ifnum n) \<in> fst ` set (interfaces n)"
      by (simp add: addInterface_def Let_def)
    with assms obtain j where "j < ifnum n" and "''eth'' @ str_nat (ifnum n) = ''eth'' @ str_nat j"
      unfolding eth_names_below_def by blast
    then show False using str_nat_inj by fastforce
  qed
  have "fst ` set (interfaces (snd (addInterface n eth ip nmask))) =
      insert (''eth'' @ str_nat (ifnum n)) (fst ` set (interfaces n))"
    by (simp add: addInterface_def Let_def dom_update)
  moreover have "ifnum (snd (addInterface n eth ip nmask)) = ifnum n + 1"
    by (simp add: addInterface_def Let_def)
  ultimately show "eth_names_below (snd (addInterface n eth ip nmask))"
    using assms unfolding eth_names_below_def
    by (metis insertE less_Suc_eq Suc_eq_plus1)
qed

end
